theory Spec2Isabelle
  imports Complex_Main "HOL-Library.AList" "HOL-Library.Multiset"
begin

section \<open>Data model (types of the survey engine)\<close>

text \<open>
  A JavaScript \<^verbatim>\<open>number\<close> is modelled by a real: every score is a finite numeric value
  and arithmetic is exact. The value \<^verbatim>\<open>NaN\<close> is not a value of the model, so the test
  \<^verbatim>\<open>!isNaN(v)\<close> of the source is always true here and only the test
  \<^verbatim>\<open>v !== undefined\<close> remains; \<^verbatim>\<open>convertToResponses\<close> never stores NaN in an answers
  record. A \<^verbatim>\<open>Record<string, number>\<close> is a partial map; a missing key reads as
  \<open>None\<close> (JavaScript's \<^verbatim>\<open>undefined\<close>).
\<close>

record Question =
  qid :: string
  projectId :: string
  key :: string
  label :: string
  categoryId :: string
  scaleMin :: real
  scaleMax :: real

record SurveyResponse =
  rid :: string
  projectId :: string
  respondentId :: string
  department :: string
  answers :: "string \<rightharpoonup> real"

datatype Priority = high | medium | low

datatype Quadrant = improve | maintain | monitor | excess

datatype ExtractionType = issue | excellent | neutral

text \<open>
  The two classification functions of analysis.ts; they are stated before the settings and
  result records, whose field names their parameters share.
\<close>

fun getQuadrant :: "real \<Rightarrow> real \<Rightarrow> real \<Rightarrow> real \<Rightarrow> Quadrant" where
  "getQuadrant mean importance meanThreshold importanceThreshold =
     (if importance \<ge> importanceThreshold \<and> mean < meanThreshold then improve
      else if importance \<ge> importanceThreshold \<and> mean \<ge> meanThreshold then maintain
      else if importance < importanceThreshold \<and> mean < meanThreshold then monitor
      else excess)"

fun getPriority :: "Quadrant \<Rightarrow> real \<Rightarrow> real \<Rightarrow> Priority" where
  "getPriority quadrant mean issueThreshold =
     (if quadrant = improve then high
      else if quadrant = monitor \<and> mean \<le> issueThreshold then medium
      else if quadrant = maintain then low
      else low)"

record AppSettings =
  issueThreshold :: real
  excellentThreshold :: real
  scaleMin :: real
  scaleMax :: real
  apiKey :: string

record AnalysisResult =
  questionId :: string
  questionKey :: string
  questionLabel :: string
  categoryId :: string
  mean :: real
  median :: real
  stdDev :: real
  lowRatio :: real
  highRatio :: real
  importance :: real
  priority :: Priority
  quadrant :: Quadrant
  extractionType :: ExtractionType

record DepartmentAnalysis =
  department :: string
  questionKey :: string
  mean :: real
  diffFromOverall :: real

section \<open>Statistics (analysis.ts)\<close>

text \<open>\<^verbatim>\<open>Math.round(x)\<close> rounds to the nearest integer, halves towards plus infinity.\<close>

definition Math_round :: "real \<Rightarrow> real" where
  "Math_round x = of_int \<lfloor>x + 1 / 2\<rfloor>"

text \<open>The idiom \<^verbatim>\<open>Math.round(x * 100) / 100\<close> used for every reported figure.\<close>

definition round2 :: "real \<Rightarrow> real" where
  "round2 x = Math_round (x * 100) / 100"

definition calcMean :: "real list \<Rightarrow> real" where
  "calcMean values =
     (if length values = 0 then 0
      else foldl (\<lambda>a b. a + b) 0 values / real (length values))"

definition calcMedian :: "real list \<Rightarrow> real" where
  "calcMedian values =
     (if length values = 0 then 0
      else let sorted = sort values;
               mid = length sorted div 2
           in if length sorted mod 2 \<noteq> 0 then sorted ! mid
              else (sorted ! (mid - 1) + sorted ! mid) / 2)"

definition calcStdDev :: "real list \<Rightarrow> real" where
  "calcStdDev values =
     (if length values \<le> 1 then 0
      else let mean = calcMean values;
               variance = foldl (\<lambda>sum v. sum + (v - mean) ^ 2) 0 values / real (length values)
           in sqrt variance)"

text \<open>
  The loop of \<^verbatim>\<open>calcCorrelation\<close> runs over the indices of \<open>x\<close> and carries the three
  accumulators \<^verbatim>\<open>numerator\<close>, \<^verbatim>\<open>denomX\<close>, \<^verbatim>\<open>denomY\<close>. It reads \<open>y\<close> at the
  indices of \<open>x\<close>; its only caller passes two lists with one entry per respondent.
\<close>

definition corrStep :: "real list \<Rightarrow> real list \<Rightarrow> real \<Rightarrow> real \<Rightarrow> real \<times> real \<times> real \<Rightarrow> nat \<Rightarrow> real \<times> real \<times> real" where
  "corrStep x y meanX meanY acc i =
     (case acc of (numerator, denomX, denomY) \<Rightarrow>
        let dx = x ! i - meanX;
            dy = y ! i - meanY
        in (numerator + dx * dy, denomX + dx * dx, denomY + dy * dy))"

definition calcCorrelation :: "real list \<Rightarrow> real list \<Rightarrow> real" where
  "calcCorrelation x y =
     (let n = length x in
      if n \<le> 1 then 0
      else let meanX = calcMean x;
               meanY = calcMean y
           in case foldl (corrStep x y meanX meanY) (0, 0, 0) [0..<n] of
                (numerator, denomX, denomY) \<Rightarrow>
                  let denom = sqrt (denomX * denomY)
                  in if denom = 0 then 0 else numerator / denom)"

text \<open>
  \<^verbatim>\<open>xs.map(f).filter((v) => v !== undefined && !isNaN(v))\<close>: the answers that are
  present, in order.
\<close>

definition present :: "real option list \<Rightarrow> real list" where
  "present vs = map the (filter (\<lambda>v. v \<noteq> None) vs)"

definition calcOverallScores :: "SurveyResponse list \<Rightarrow> string list \<Rightarrow> real list" where
  "calcOverallScores responses questionKeys =
     map (\<lambda>r. let scores = present (map (\<lambda>k. answers r k) questionKeys)
              in if length scores > 0 then calcMean scores else 0) responses"

text \<open>The body of the \<^verbatim>\<open>questions.map\<close> callback of \<^verbatim>\<open>runAnalysis\<close>.\<close>

definition analyseQuestion :: "SurveyResponse list \<Rightarrow> AppSettings \<Rightarrow> real list \<Rightarrow> Question \<Rightarrow> AnalysisResult" where
  "analyseQuestion responses settings overallScores question =
     (let values = present (map (\<lambda>r. answers r (key question)) responses);
          mean = calcMean values;
          median = calcMedian values;
          stdDev = calcStdDev values;
          lowRatio = (if length values > 0
                      then real (length (filter (\<lambda>v. v \<le> 2) values)) / real (length values)
                      else 0);
          highRatio = (if length values > 0
                       then real (length (filter (\<lambda>v. v \<ge> 4) values)) / real (length values)
                       else 0);
          questionScores = map (\<lambda>r. case answers r (key question) of None \<Rightarrow> 0 | Some v \<Rightarrow> v) responses;
          importance = \<bar>calcCorrelation questionScores overallScores\<bar>;
          meanThreshold = (AppSettings.scaleMin settings + AppSettings.scaleMax settings) / 2;
          importanceThreshold = 1 / 2;
          quadrant = getQuadrant mean importance meanThreshold importanceThreshold;
          priority = getPriority quadrant mean (issueThreshold settings);
          extractionType = (if mean \<le> issueThreshold settings then issue
                            else if mean \<ge> excellentThreshold settings then excellent
                            else neutral)
      in \<lparr> questionId = qid question,
           AnalysisResult.questionKey = key question,
           questionLabel = label question,
           AnalysisResult.categoryId = Question.categoryId question,
           AnalysisResult.mean = round2 mean,
           median = median,
           stdDev = round2 stdDev,
           lowRatio = round2 lowRatio,
           highRatio = round2 highRatio,
           importance = round2 importance,
           priority = priority,
           quadrant = quadrant,
           extractionType = extractionType \<rparr>)"

definition runAnalysis :: "SurveyResponse list \<Rightarrow> Question list \<Rightarrow> AppSettings \<Rightarrow> AnalysisResult list" where
  "runAnalysis responses questions settings =
     (if length responses = 0 \<or> length questions = 0 then []
      else let questionKeys = map key questions;
               overallScores = calcOverallScores responses questionKeys
           in map (analyseQuestion responses settings overallScores) questions)"

section \<open>Department analysis (analysis.ts)\<close>

text \<open>
  \<^verbatim>\<open>[...new Set(xs)]\<close>: the distinct elements of \<open>xs\<close> in the order of their first
  occurrence (a \<^verbatim>\<open>Set\<close> iterates in insertion order).
\<close>

definition newSet :: "'a list \<Rightarrow> 'a list" where
  "newSet xs = foldl (\<lambda>s x. if x \<in> set s then s else s @ [x]) [] xs"

text \<open>
  \<^verbatim>\<open>sortDepartments\<close> sorts a copy of the list with the comparator
  \<^verbatim>\<open>(a, b) => a.localeCompare(b, 'ja', { numeric: true })\<close>. The collation is the
  JavaScript engine's, so the comparator is a parameter \<open>cmp\<close> of the model (negative,
  zero or positive, as \<^verbatim>\<open>localeCompare\<close> returns). \<^verbatim>\<open>Array.prototype.sort\<close> is a stable
  sort; for a consistent comparator every stable sort returns the same list, which the
  model computes by insertion.
\<close>

fun insertBy :: "('a \<Rightarrow> 'a \<Rightarrow> int) \<Rightarrow> 'a \<Rightarrow> 'a list \<Rightarrow> 'a list" where
  "insertBy cmp x [] = [x]"
| "insertBy cmp x (y # ys) = (if cmp x y \<le> 0 then x # y # ys else y # insertBy cmp x ys)"

definition sortDepartments :: "(string \<Rightarrow> string \<Rightarrow> int) \<Rightarrow> string list \<Rightarrow> string list" where
  "sortDepartments cmp departments = foldr (insertBy cmp) departments []"

text \<open>
  The local \<^verbatim>\<open>departments\<close> of \<^verbatim>\<open>runDepartmentAnalysis\<close>; \<^verbatim>\<open>filter(Boolean)\<close> keeps
  the strings that are not empty.
\<close>

definition departmentsOf :: "(string \<Rightarrow> string \<Rightarrow> int) \<Rightarrow> SurveyResponse list \<Rightarrow> string list" where
  "departmentsOf cmp responses =
     sortDepartments cmp (newSet (filter (\<lambda>d. d \<noteq> []) (map SurveyResponse.department responses)))"

text \<open>The body of the inner loop: the entry pushed for one department and one question.\<close>

definition departmentEntry :: "SurveyResponse list \<Rightarrow> AnalysisResult list \<Rightarrow> string \<Rightarrow> Question \<Rightarrow> DepartmentAnalysis" where
  "departmentEntry deptResponses overallResults dept question =
     (let values = present (map (\<lambda>r. answers r (key question)) deptResponses);
          mean = calcMean values;
          overall = find (\<lambda>r. AnalysisResult.questionKey r = key question) overallResults;
          diffFromOverall = (case overall of
                               Some ov \<Rightarrow> round2 (mean - AnalysisResult.mean ov)
                             | None \<Rightarrow> 0)
      in \<lparr> department = dept,
           questionKey = key question,
           mean = round2 mean,
           diffFromOverall = diffFromOverall \<rparr>)"

definition runDepartmentAnalysis :: "(string \<Rightarrow> string \<Rightarrow> int) \<Rightarrow> SurveyResponse list \<Rightarrow> Question list \<Rightarrow> AnalysisResult list \<Rightarrow> DepartmentAnalysis list" where
  "runDepartmentAnalysis cmp responses questions overallResults =
     (let departments = departmentsOf cmp responses
      in concat (map (\<lambda>dept.
           let deptResponses = filter (\<lambda>r. SurveyResponse.department r = dept) responses
           in map (departmentEntry deptResponses overallResults dept) questions) departments))"

section \<open>Distribution (analysis.ts)\<close>

text \<open>
  A JavaScript \<^verbatim>\<open>Map<number, number>\<close> is an association list in insertion order:
  \<^verbatim>\<open>set\<close> of a key that is present replaces its value in place, \<^verbatim>\<open>set\<close> of a new key
  appends it (\<open>AList.update\<close>), \<^verbatim>\<open>get\<close> is \<open>map_of\<close>. The first loop of
  \<^verbatim>\<open>getDistribution\<close> counts \<open>i\<close> up from \<open>scaleMin\<close> in steps of 1 while
  \<open>i \<le> scaleMax\<close>.
\<close>

function initCounts :: "real \<Rightarrow> real \<Rightarrow> (real \<times> real) list \<Rightarrow> (real \<times> real) list" where
  "initCounts i scaleMax' counts =
     (if i \<le> scaleMax' then initCounts (i + 1) scaleMax' (AList.update i 0 counts) else counts)"
  by pat_completeness auto
termination
proof (relation "measure (\<lambda>(i, scaleMax', counts). nat \<lceil>scaleMax' - i + 1\<rceil>)")
  show "wf (measure (\<lambda>(i, scaleMax', counts). nat \<lceil>scaleMax' - i + 1\<rceil>))"
    by simp
next
  fix i scaleMax' :: real and counts :: "(real \<times> real) list"
  assume "i \<le> scaleMax'"
  then have nonneg: "0 \<le> \<lceil>scaleMax' - i\<rceil>"
    by (simp add: le_ceiling_iff)
  have "scaleMax' - (i + 1) + 1 = scaleMax' - i"
    by simp
  then have shift: "\<lceil>scaleMax' - (i + 1) + 1\<rceil> = \<lceil>scaleMax' - i\<rceil>"
    by (simp only:)
  have "nat \<lceil>scaleMax' - (i + 1) + 1\<rceil> < nat \<lceil>scaleMax' - i + 1\<rceil>"
    unfolding shift ceiling_add_one using nonneg by linarith
  then show "((i + 1, scaleMax', AList.update i 0 counts), (i, scaleMax', counts))
      \<in> measure (\<lambda>(i, scaleMax', counts). nat \<lceil>scaleMax' - i + 1\<rceil>)"
    by (simp only: in_measure prod.case)
qed

declare initCounts.simps [simp del]

text \<open>
  The body of the second loop. \<^verbatim>\<open>counts.get(v) || 0\<close> is 0 when the key is missing or
  its count is 0.
\<close>

definition countStep :: "string \<Rightarrow> (real \<times> real) list \<Rightarrow> SurveyResponse \<Rightarrow> (real \<times> real) list" where
  "countStep questionKey' counts r =
     (case answers r questionKey' of
        None \<Rightarrow> counts
      | Some v \<Rightarrow>
          if map_of counts v \<noteq> None
          then AList.update v ((case map_of counts v of
                                  None \<Rightarrow> 0
                                | Some c \<Rightarrow> if c = 0 then 0 else c) + 1) counts
          else counts)"

text \<open>The result lists the entries of the map as pairs \<open>(value, count)\<close>.\<close>

definition getDistribution :: "SurveyResponse list \<Rightarrow> string \<Rightarrow> real \<Rightarrow> real \<Rightarrow> (real \<times> real) list" where
  "getDistribution responses questionKey' scaleMin' scaleMax' =
     (let counts = initCounts scaleMin' scaleMax' [];
          counts = foldl (countStep questionKey') counts responses
      in map (\<lambda>(value, count). (value, count)) counts)"

section \<open>Spreadsheet rows (parser)\<close>

text \<open>
  A cell of a parsed sheet is a string or a number. A row object
  (\<^verbatim>\<open>Record<string, string | number>\<close>) is the association list of its entries in the
  order of \<^verbatim>\<open>Object.keys\<close>; \<^verbatim>\<open>row[h]\<close> is \<open>map_of row h\<close>, and \<open>None\<close> is
  \<^verbatim>\<open>undefined\<close>. A \<open>char\<close> of a string stands for one UTF-16 code unit, so that
  \<open>length\<close> is JavaScript's \<^verbatim>\<open>.length\<close>.
\<close>

datatype cell = Str string | Num real

type_synonym row = "(string \<times> cell) list"

text \<open>
  The functions of the JavaScript library and the constants whose text is not ASCII are
  parameters of the model, collected in one record:
  \<^item> \<open>parseNumber s\<close> is \<^verbatim>\<open>Number(s)\<close> for a string \<open>s\<close>, \<open>None\<close> standing for NaN;
  \<^item> \<open>numberToString x\<close> is \<^verbatim>\<open>String(x)\<close> for a number \<open>x\<close>;
  \<^item> \<open>trim\<close> and \<open>toLowerCase\<close> are the string methods of these names;
  \<^item> \<open>localeCompare a b\<close> is \<^verbatim>\<open>a.localeCompare(b, 'ja', { numeric: true })\<close>;
  \<^item> \<open>matchesNumberHeader\<close>, \<open>matchesSkipCol\<close>, \<open>matchesOverall\<close> and
    \<open>matchesAverage\<close> are the \<^verbatim>\<open>test\<close> methods of the regular expressions for the
    question-number header, \<^verbatim>\<open>SKIP_COL_PATTERNS\<close>, the overall-column header and the
    weighted-average header;
  \<^item> \<open>CATEGORY_KEYWORDS\<close> is the keyword table of the types module, as the list of its
    entries;
  \<^item> \<open>respondentIdHeader\<close> is the header of the respondent-id column of the
    reconstructed table.
\<close>

record js =
  parseNumber :: "string \<Rightarrow> real option"
  numberToString :: "real \<Rightarrow> string"
  trim :: "string \<Rightarrow> string"
  toLowerCase :: "string \<Rightarrow> string"
  localeCompare :: "string \<Rightarrow> string \<Rightarrow> int"
  matchesNumberHeader :: "string \<Rightarrow> bool"
  matchesSkipCol :: "string \<Rightarrow> bool"
  matchesOverall :: "string \<Rightarrow> bool"
  matchesAverage :: "string \<Rightarrow> bool"
  CATEGORY_KEYWORDS :: "(string \<times> string list) list"
  respondentIdHeader :: string

text \<open>\<^verbatim>\<open>Number(v)\<close> for a cell that may be missing: \<^verbatim>\<open>Number(undefined)\<close> is NaN.\<close>

definition Number_cell :: "js \<Rightarrow> cell option \<Rightarrow> real option" where
  "Number_cell env v =
     (case v of None \<Rightarrow> None | Some (Num x) \<Rightarrow> Some x | Some (Str s) \<Rightarrow> parseNumber env s)"

text \<open>
  \<^verbatim>\<open>String(v || '')\<close>: a missing cell, the empty string and the number 0 are falsy and
  give the empty string.
\<close>

definition String_or_empty :: "js \<Rightarrow> cell option \<Rightarrow> string" where
  "String_or_empty env v =
     (case v of
        None \<Rightarrow> []
      | Some (Str s) \<Rightarrow> s
      | Some (Num x) \<Rightarrow> if x = 0 then [] else numberToString env x)"

text \<open>\<^verbatim>\<open>typeof v === 'string' && v.length > n\<close>.\<close>

definition longText :: "nat \<Rightarrow> cell option \<Rightarrow> bool" where
  "longText n v = (case v of Some (Str s) \<Rightarrow> length s > n | _ \<Rightarrow> False)"

text \<open>\<^verbatim>\<open>x || d\<close> for a number \<open>x\<close>: NaN and 0 are falsy.\<close>

definition number_or :: "real option \<Rightarrow> real \<Rightarrow> real" where
  "number_or x d = (case x of None \<Rightarrow> d | Some v \<Rightarrow> if v = 0 then d else v)"

section \<open>Question categories (analysis.ts)\<close>

text \<open>\<^verbatim>\<open>s.includes(t)\<close>: \<open>t\<close> occurs in \<open>s\<close> as a contiguous substring.\<close>

definition includesStr :: "string \<Rightarrow> string \<Rightarrow> bool" where
  "includesStr s t = list_ex (\<lambda>i. take (length t) (drop i s) = t) [0..<Suc (length s)]"

definition classifyQuestion :: "js \<Rightarrow> string \<Rightarrow> string" where
  "classifyQuestion env questionLabel' =
     (let lowered = toLowerCase env questionLabel'
      in case find (\<lambda>entry. list_ex (\<lambda>kw. includesStr lowered (toLowerCase env kw)) (snd entry))
                   (CATEGORY_KEYWORDS env) of
           Some entry \<Rightarrow> fst entry
         | None \<Rightarrow> ''cat-other'')"

section \<open>Department score matrix (parser)\<close>

record DepartmentScoreQuestion =
  number :: real
  label :: string
  categoryId :: string
  scores :: "(string \<times> real) list"

record DepartmentScoreData =
  questions :: "DepartmentScoreQuestion list"
  departments :: "string list"
  overallDepartment :: string

text \<open>
  The four errors that \<^verbatim>\<open>extractDepartmentScores\<close> throws, each with a message of its
  own: the data is empty; the question text column is not found; the department score
  columns are not found; the question data is not found.
\<close>

datatype extractError = EmptyData | NoTextColumn | NoDeptColumns | NoQuestions

text \<open>The predicate of the \<^verbatim>\<open>deptColumns\<close> filter.\<close>

definition isDeptColumn :: "js \<Rightarrow> row list \<Rightarrow> string \<Rightarrow> string option \<Rightarrow> string \<Rightarrow> bool" where
  "isDeptColumn env rows textCol numCol h =
     (if h = textCol \<or> Some h = numCol then False
      else if matchesSkipCol env (trim env h) then False
      else let numericVals = filter (\<lambda>v. v > 0) (present (map (\<lambda>r. Number_cell env (map_of r h)) rows))
           in real (length numericVals) \<ge> real (length rows) * (3 / 10)
              \<and> list_all (\<lambda>v. v \<ge> 1 \<and> v \<le> 11 / 2) numericVals)"

text \<open>The \<^verbatim>\<open>scores\<close> record of one row, filled in the order of \<^verbatim>\<open>deptColumns\<close>.\<close>

definition scoresOf :: "js \<Rightarrow> string list \<Rightarrow> row \<Rightarrow> (string \<times> real) list" where
  "scoresOf env deptColumns r =
     foldl (\<lambda>acc dept.
              case Number_cell env (map_of r dept) of
                None \<Rightarrow> acc
              | Some val \<Rightarrow> if val > 0 then AList.update dept (round2 val) acc else acc)
           [] deptColumns"

text \<open>The callback of \<^verbatim>\<open>map((row, idx) => ...)\<close>.\<close>

definition scoreQuestion :: "js \<Rightarrow> string \<Rightarrow> string option \<Rightarrow> string list \<Rightarrow> nat \<times> row \<Rightarrow> DepartmentScoreQuestion" where
  "scoreQuestion env textCol numCol deptColumns p =
     (case p of (idx, r) \<Rightarrow>
        let label = trim env (case map_of r textCol of
                                None \<Rightarrow> ''undefined''
                              | Some (Str s) \<Rightarrow> s
                              | Some (Num x) \<Rightarrow> numberToString env x);
            number = (case numCol of
                        Some c \<Rightarrow> number_or (Number_cell env (map_of r c)) (real idx + 1)
                      | None \<Rightarrow> real idx + 1)
        in \<lparr> number = number,
             label = label,
             categoryId = classifyQuestion env label,
             scores = scoresOf env deptColumns r \<rparr>)"

text \<open>
  \<^verbatim>\<open>if (!textCol)\<close> holds when \<^verbatim>\<open>find\<close> returns \<^verbatim>\<open>undefined\<close> and also when the header
  found is the empty string; \<^verbatim>\<open>numCol ?\<close> likewise takes a number column with the empty
  header for none.
\<close>

definition extractDepartmentScores :: "js \<Rightarrow> row list \<Rightarrow> extractError + DepartmentScoreData" where
  "extractDepartmentScores env rows =
     (case rows of
        [] \<Rightarrow> Inl EmptyData
      | firstRow # _ \<Rightarrow>
          let headers = map fst firstRow;
              textCol = find (\<lambda>h. list_ex (\<lambda>r. longText 5 (map_of r h)) rows) headers
          in if textCol = None \<or> textCol = Some [] then Inl NoTextColumn
             else let textCol = the textCol;
                      numCol = find (\<lambda>h. h \<noteq> textCol \<and> matchesNumberHeader env h) headers;
                      deptColumns = filter (isDeptColumn env rows textCol numCol) headers
                  in if length deptColumns = 0 then Inl NoDeptColumns
                     else let overallDept = (case find (matchesOverall env) deptColumns of
                                               Some h \<Rightarrow> h
                                             | None \<Rightarrow> []);
                              kept = filter (\<lambda>r. length (trim env (String_or_empty env (map_of r textCol))) > 2) rows;
                              questions = map (scoreQuestion env textCol
                                                 (if numCol = Some [] then None else numCol) deptColumns)
                                              (enumerate 0 kept)
                          in if length questions = 0 then Inl NoQuestions
                             else Inr \<lparr> questions = questions,
                                        departments = foldr (insertBy (localeCompare env)) deptColumns [],
                                        overallDepartment = overallDept \<rparr>)"

section \<open>Frequency-distribution table (parser)\<close>

text \<open>
  \<^verbatim>\<open>scoreHeaderMap\<close>: the headers whose number is an integer from 1 to 10, keyed by that
  number, in a \<^verbatim>\<open>Map\<close> (an association list in insertion order).
\<close>

definition scoreHeaderMapOf :: "js \<Rightarrow> string list \<Rightarrow> (real \<times> string) list" where
  "scoreHeaderMapOf env hs =
     foldl (\<lambda>m h. case parseNumber env h of
                     None \<Rightarrow> m
                   | Some num \<Rightarrow>
                       if of_int \<lfloor>num\<rfloor> = num \<and> num \<ge> 1 \<and> num \<le> 10
                       then AList.update num h m else m)
           [] hs"

record QuestionFreq =
  number :: real
  text' :: string
  counts :: "(real \<times> real) list"
  total :: real
  weightedAvg :: "real option"

text \<open>
  The inner loop over the score columns of one data row: it fills \<^verbatim>\<open>counts\<close> and adds up
  \<^verbatim>\<open>total\<close>; a cell that is missing, not a number or 0 counts as 0.
\<close>

definition countCells :: "js \<Rightarrow> (real \<times> string) list \<Rightarrow> row \<Rightarrow> (real \<times> real) list \<times> real" where
  "countCells env scoreHeaderMap r =
     foldl (\<lambda>acc entry.
              case acc of (cs, tot) \<Rightarrow>
                let cnt = number_or (Number_cell env (map_of r (snd entry))) 0
                in (AList.update (fst entry) cnt cs, tot + cnt))
           ([], 0) scoreHeaderMap"

text \<open>
  The body of the loop over the data rows; \<open>qs\<close> is the array \<^verbatim>\<open>questions\<close> built so far.
  \<^verbatim>\<open>numberColumn ?\<close> and \<^verbatim>\<open>avgColumn ?\<close> take a column with the empty header for none.
\<close>

definition questionStep :: "js \<Rightarrow> string \<Rightarrow> (real \<times> string) list \<Rightarrow> string option \<Rightarrow> string option \<Rightarrow> QuestionFreq list \<Rightarrow> row \<Rightarrow> QuestionFreq list" where
  "questionStep env textColumn scoreHeaderMap numberColumn avgColumn qs r =
     (let txt = trim env (String_or_empty env (map_of r textColumn))
      in if txt = [] \<or> length txt < 2 then qs
         else case countCells env scoreHeaderMap r of (cs, tot) \<Rightarrow>
           if tot = 0 then qs
           else let qNum = (case numberColumn of
                              None \<Rightarrow> real (length qs) + 1
                            | Some c \<Rightarrow>
                                if c = [] then real (length qs) + 1
                                else number_or (Number_cell env (map_of r c)) (real (length qs) + 1));
                    wAvg = (case avgColumn of
                              None \<Rightarrow> None
                            | Some c \<Rightarrow>
                                if c = [] then None
                                else (case Number_cell env (map_of r c) of
                                        None \<Rightarrow> None
                                      | Some v \<Rightarrow> if v = 0 then None else Some v))
                in qs @ [\<lparr> number = qNum, text' = txt, counts = cs, total = tot, weightedAvg = wAvg \<rparr>])"

text \<open>
  Detection (the part of \<^verbatim>\<open>tryConvertFrequencyTable\<close> before the reconstruction): the list
  \<^verbatim>\<open>questions\<close> of an accepted table, \<open>None\<close> where the function returns \<^verbatim>\<open>null\<close>.
\<close>

definition detectQuestions :: "js \<Rightarrow> string list \<Rightarrow> row list \<Rightarrow> QuestionFreq list option" where
  "detectQuestions env hs rws =
     (if length rws < 3 then None
      else let scoreHeaderMap = scoreHeaderMapOf env hs
           in if length scoreHeaderMap < 3 then None
              else let firstRow = hd rws;
                       textInScoreCols = filter (\<lambda>h. longText 1 (map_of firstRow h)) (map snd scoreHeaderMap)
                   in if real (length textInScoreCols) < real (length scoreHeaderMap) / 2 then None
                      else let dataRows = tl rws;
                               textColumn = find (\<lambda>h. list_ex (\<lambda>r. longText 5 (map_of r h)) dataRows) hs
                           in if textColumn = None \<or> textColumn = Some [] then None
                              else let textColumn = the textColumn;
                                       nonDataCols = textColumn # map snd scoreHeaderMap;
                                       numberColumn = find (\<lambda>h. h \<notin> set nonDataCols \<and>
                                           list_ex (\<lambda>r. case Number_cell env (map_of r h) of
                                                            None \<Rightarrow> False
                                                          | Some v \<Rightarrow> v > 0) dataRows) hs;
                                       avgColumn = find (matchesAverage env) hs;
                                       qs = foldl (questionStep env textColumn scoreHeaderMap numberColumn avgColumn) [] dataRows
                                   in if length qs = 0 then None else Some qs)"

text \<open>
  The three counting loops of the reconstruction. \<^verbatim>\<open>for (let i = 0; i < count; i++)\<close>
  pushes the score while \<open>i < count\<close>; \<^verbatim>\<open>while (arr.length < maxTotal)\<close> pushes
  \<^verbatim>\<open>null\<close> (\<open>None\<close>); the row loop collects the indices \<open>i < maxTotal\<close>.
\<close>

function pushScore :: "nat \<Rightarrow> real \<Rightarrow> 'a \<Rightarrow> 'a list \<Rightarrow> 'a list" where
  "pushScore i cnt x arr = (if real i < cnt then pushScore (Suc i) cnt x (arr @ [x]) else arr)"
  by pat_completeness auto
termination
proof (relation "measure (\<lambda>(i, cnt, x, arr). nat \<lceil>cnt\<rceil> - i)")
  show "wf (measure (\<lambda>(i, cnt, x, arr). nat \<lceil>cnt\<rceil> - i))"
    by simp
next
  fix i :: nat and cnt :: real and x :: 'a and arr :: "'a list"
  assume "real i < cnt"
  then have "int i < \<lceil>cnt\<rceil>"
    by (simp add: less_ceiling_iff)
  then have "nat \<lceil>cnt\<rceil> - Suc i < nat \<lceil>cnt\<rceil> - i"
    by linarith
  then show "((Suc i, cnt, x, arr @ [x]), (i, cnt, x, arr))
      \<in> measure (\<lambda>(i, cnt, x, arr). nat \<lceil>cnt\<rceil> - i)"
    by (simp only: in_measure prod.case)
qed

declare pushScore.simps [simp del]

function padNull :: "real \<Rightarrow> 'a option list \<Rightarrow> 'a option list" where
  "padNull maxTotal arr = (if real (length arr) < maxTotal then padNull maxTotal (arr @ [None]) else arr)"
  by pat_completeness auto
termination
proof (relation "measure (\<lambda>(maxTotal, arr). nat \<lceil>maxTotal\<rceil> - length arr)")
  show "wf (measure (\<lambda>(maxTotal, arr). nat \<lceil>maxTotal\<rceil> - length arr))"
    by simp
next
  fix maxTotal :: real and arr :: "'a option list"
  assume "real (length arr) < maxTotal"
  then have "int (length arr) < \<lceil>maxTotal\<rceil>"
    by (simp add: less_ceiling_iff)
  moreover have "length (arr @ [None]) = Suc (length arr)"
    by simp
  ultimately have "nat \<lceil>maxTotal\<rceil> - length (arr @ [None]) < nat \<lceil>maxTotal\<rceil> - length arr"
    by linarith
  then show "((maxTotal, arr @ [None]), (maxTotal, arr))
      \<in> measure (\<lambda>(maxTotal, arr). nat \<lceil>maxTotal\<rceil> - length arr)"
    by (simp only: in_measure prod.case)
qed

declare padNull.simps [simp del]

function rowIndices :: "nat \<Rightarrow> real \<Rightarrow> nat list" where
  "rowIndices i maxTotal = (if real i < maxTotal then i # rowIndices (Suc i) maxTotal else [])"
  by pat_completeness auto
termination
proof (relation "measure (\<lambda>(i, maxTotal). nat \<lceil>maxTotal\<rceil> - i)")
  show "wf (measure (\<lambda>(i, maxTotal). nat \<lceil>maxTotal\<rceil> - i))"
    by simp
next
  fix i :: nat and maxTotal :: real
  assume "real i < maxTotal"
  then have "int i < \<lceil>maxTotal\<rceil>"
    by (simp add: less_ceiling_iff)
  then have "nat \<lceil>maxTotal\<rceil> - Suc i < nat \<lceil>maxTotal\<rceil> - i"
    by linarith
  then show "((Suc i, maxTotal), (i, maxTotal)) \<in> measure (\<lambda>(i, maxTotal). nat \<lceil>maxTotal\<rceil> - i)"
    by (simp only: in_measure prod.case)
qed

declare rowIndices.simps [simp del]

text \<open>
  The Fisher-Yates loop \<^verbatim>\<open>for (let i = arr.length - 1; i > 0; i--)\<close>. The calls of
  \<^verbatim>\<open>Math.random()\<close> are the values \<open>rnd 0\<close>, \<open>rnd 1\<close>, ... of a sequence; the
  state is the number \<open>c\<close> of values drawn so far. The swap
  \<^verbatim>\<open>[arr[i], arr[j]] = [arr[j], arr[i]]\<close> reads both entries before it writes.
\<close>

fun fisherYates :: "(nat \<Rightarrow> real) \<Rightarrow> nat \<Rightarrow> nat \<Rightarrow> 'a list \<Rightarrow> 'a list \<times> nat" where
  "fisherYates rnd 0 c arr = (arr, c)"
| "fisherYates rnd (Suc k) c arr =
     (let i = Suc k;
          j = nat \<lfloor>rnd c * (real i + 1)\<rfloor>
      in fisherYates rnd k (Suc c) (arr[i := arr ! j, j := arr ! i]))"

text \<open>The callback of \<^verbatim>\<open>questions.map\<close> that builds one score array.\<close>

definition scoreArray :: "(nat \<Rightarrow> real) \<Rightarrow> real \<Rightarrow> nat \<Rightarrow> QuestionFreq \<Rightarrow> real option list \<times> nat" where
  "scoreArray rnd maxTotal c q =
     (let arr = foldl (\<lambda>arr entry. pushScore 0 (snd entry) (Some (fst entry)) arr) [] (counts q);
          arr = padNull maxTotal arr
      in fisherYates rnd (length arr - 1) c arr)"

fun scoreArraysFrom :: "(nat \<Rightarrow> real) \<Rightarrow> real \<Rightarrow> nat \<Rightarrow> QuestionFreq list \<Rightarrow> real option list list" where
  "scoreArraysFrom rnd maxTotal c [] = []"
| "scoreArraysFrom rnd maxTotal c (q # qs) =
     (case scoreArray rnd maxTotal c q of
        (arr, c') \<Rightarrow> arr # scoreArraysFrom rnd maxTotal c' qs)"

text \<open>\<^verbatim>\<open>s.padStart(3, '0')\<close>.\<close>

definition padStart3 :: "string \<Rightarrow> string" where
  "padStart3 s = replicate (3 - length s) (CHR ''0'') @ s"

text \<open>
  One pseudo-respondent row: the respondent id, then for each question, in order, its
  score at index \<open>i\<close> unless that entry is \<^verbatim>\<open>null\<close>. Every score array has at least as
  many entries as there are rows, so the index is within the array.
\<close>

definition pseudoRow :: "js \<Rightarrow> string list \<Rightarrow> real option list list \<Rightarrow> nat \<Rightarrow> row" where
  "pseudoRow env questionKeys scoreArrays i =
     foldl (\<lambda>r entry. case snd entry ! i of
                           None \<Rightarrow> r
                         | Some score \<Rightarrow> AList.update (fst entry) (Num score) r)
           [(respondentIdHeader env, Str (padStart3 (numberToString env (real i + 1))))]
           (zip questionKeys scoreArrays)"

text \<open>\<^verbatim>\<open>Math.max(...xs)\<close> for a list that is not empty.\<close>

definition Math_max :: "real list \<Rightarrow> real" where
  "Math_max xs = foldl max (hd xs) (tl xs)"

definition questionKeysOf :: "js \<Rightarrow> QuestionFreq list \<Rightarrow> string list" where
  "questionKeysOf env qs = map (\<lambda>q. ''Q'' @ numberToString env (QuestionFreq.number q) @ ''_'' @ text' q) qs"

record ParsedSurveyData =
  headers :: "string list"
  respondentIdColumn :: string
  departmentColumn :: string
  questionColumns :: "string list"
  rows :: "row list"

definition tryConvertFrequencyTable :: "js \<Rightarrow> (nat \<Rightarrow> real) \<Rightarrow> string list \<Rightarrow> row list \<Rightarrow> ParsedSurveyData option" where
  "tryConvertFrequencyTable env rnd hs rws =
     (case detectQuestions env hs rws of
        None \<Rightarrow> None
      | Some qs \<Rightarrow>
          let maxTotal = Math_max (map total qs);
              questionKeys = questionKeysOf env qs;
              scoreArrays = scoreArraysFrom rnd maxTotal 0 qs;
              pseudoRows = map (pseudoRow env questionKeys scoreArrays) (rowIndices 0 maxTotal)
          in Some \<lparr> headers = respondentIdHeader env # questionKeys,
                     respondentIdColumn = respondentIdHeader env,
                     departmentColumn = [],
                     questionColumns = questionKeys,
                     rows = pseudoRows \<rparr>)"

text \<open>
  An invariant of the detected questions: the scores of \<^verbatim>\<open>counts\<close> are pairwise
  distinct and \<^verbatim>\<open>total\<close> is the sum of the counts.
\<close>

definition wellCounted :: "QuestionFreq \<Rightarrow> bool" where
  "wellCounted q \<longleftrightarrow> distinct (map fst (counts q)) \<and> total q = sum_list (map snd (counts q))"

text \<open>\<^verbatim>\<open>DEFAULT_SETTINGS\<close> of the types module.\<close>

definition DEFAULT_SETTINGS :: AppSettings where
  "DEFAULT_SETTINGS =
     \<lparr> issueThreshold = 3, excellentThreshold = 4,
       AppSettings.scaleMin = 1, AppSettings.scaleMax = 5, apiKey = [] \<rparr>"

section \<open>Reference definitions\<close>

text \<open>
  The Pearson correlation coefficient of two samples as the specification words it: the
  sum of the products of the deviations from the two means, divided by the square root of
  the product of the two sums of squared deviations; 0 when there are fewer than 2
  entries or when either sample has zero variance.
\<close>

definition pearson :: "real list \<Rightarrow> real list \<Rightarrow> real" where
  "pearson xs ys =
     (let mx = sum_list xs / real (length xs);
          my = sum_list ys / real (length ys);
          sxy = (\<Sum>(x, y)\<leftarrow>zip xs ys. (x - mx) * (y - my));
          sxx = (\<Sum>x\<leftarrow>xs. (x - mx) ^ 2);
          syy = (\<Sum>y\<leftarrow>ys. (y - my) ^ 2)
      in if length xs < 2 \<or> sxx = 0 \<or> syy = 0 then 0 else sxy / sqrt (sxx * syy))"

text \<open>
  The overall score of a respondent as the specification words it: the mean of the
  respondent's present answers across all question keys, 0 when none is present.
\<close>

definition overallScore :: "string list \<Rightarrow> SurveyResponse \<Rightarrow> real" where
  "overallScore keys r =
     (let given = List.map_filter (\<lambda>k. answers r k) keys
      in if given = [] then 0 else sum_list given / real (length given))"

section \<open>Example data\<close>

text \<open>
  Concrete respondents and questions for the worked examples below: a respondent is given
  by a department and the list of its answers, a question by its key.
\<close>

definition exampleResponse :: "string \<Rightarrow> (string \<times> real) list \<Rightarrow> SurveyResponse" where
  "exampleResponse dept ans =
     \<lparr> rid = [], SurveyResponse.projectId = [], respondentId = [],
       SurveyResponse.department = dept, answers = map_of ans \<rparr>"

definition exampleQuestion :: "string \<Rightarrow> Question" where
  "exampleQuestion k =
     \<lparr> qid = k, Question.projectId = [], key = k, label = k,
       Question.categoryId = [], Question.scaleMin = 1, Question.scaleMax = 5 \<rparr>"

text \<open>A comparator for the examples: strings compared code unit by code unit.\<close>

fun codeUnitCompare :: "string \<Rightarrow> string \<Rightarrow> int" where
  "codeUnitCompare [] [] = 0"
| "codeUnitCompare [] (b # bs) = - 1"
| "codeUnitCompare (a # as) [] = 1"
| "codeUnitCompare (a # as) (b # bs) =
     (if (of_char a :: nat) < of_char b then - 1
      else if (of_char b :: nat) < of_char a then 1
      else codeUnitCompare as bs)"

text \<open>Eight respondents answering one question: one answer 1 and seven answers 5.\<close>

definition eightRespondents :: "SurveyResponse list" where
  "eightRespondents =
     exampleResponse [] [(''q1'', 1)] # replicate 7 (exampleResponse [] [(''q1'', 5)])"

text \<open>
  Six respondents answering one question: three of department A (3, 3, 4), two of
  department B (2, 2) and one with no department (2).
\<close>

definition sixRespondents :: "SurveyResponse list" where
  "sixRespondents =
     [exampleResponse ''B'' [(''q1'', 2)], exampleResponse ''A'' [(''q1'', 3)],
      exampleResponse ''B'' [(''q1'', 2)], exampleResponse ''A'' [(''q1'', 3)],
      exampleResponse [] [(''q1'', 2)], exampleResponse ''A'' [(''q1'', 4)]]"

text \<open>
  Nine respondents for the distribution: answers 1, 1, 3, 5, 5, 5, then 2.5, then 7, and
  one respondent with no answer.
\<close>

definition distributionRespondents :: "SurveyResponse list" where
  "distributionRespondents =
     map (\<lambda>v. exampleResponse [] [(''q1'', v)]) [1, 1, 3, 5, 5, 5, 5 / 2, 7]
     @ [exampleResponse [] []]"

text \<open>
  Three respondents and two questions: answers (1, 1), (1, 3) and, for the third
  respondent, 2 for the first question and none for the second.
\<close>

definition threeRespondents :: "SurveyResponse list" where
  "threeRespondents =
     [exampleResponse [] [(''q1'', 1), (''q2'', 1)],
      exampleResponse [] [(''q1'', 1), (''q2'', 3)],
      exampleResponse [] [(''q1'', 2)]]"

text \<open>
  An environment for the examples. It covers ASCII text and natural numbers only:
  \<open>exampleParseNumber\<close> reads a string of decimal digits (the empty string as 0, as
  \<^verbatim>\<open>Number('')\<close> does), \<open>exampleNumberToString\<close> writes the integer part of a number
  in decimal digits, \<open>exampleTrim\<close> strips spaces, \<open>exampleLower\<close> lowers the letters
  A to Z, and the four header tests keep the ASCII alternatives of the regular
  expressions.
\<close>

fun parseDigits :: "nat \<Rightarrow> string \<Rightarrow> nat option" where
  "parseDigits acc [] = Some acc"
| "parseDigits acc (c # cs) =
     (if 48 \<le> (of_char c :: nat) \<and> (of_char c :: nat) \<le> 57
      then parseDigits (10 * acc + (of_char c - 48)) cs else None)"

definition exampleParseNumber :: "string \<Rightarrow> real option" where
  "exampleParseNumber s = map_option real (parseDigits 0 s)"

function natString :: "nat \<Rightarrow> string" where
  "natString n = (if n < 10 then [''0123456789'' ! n] else natString (n div 10) @ [''0123456789'' ! (n mod 10)])"
  by pat_completeness auto
termination
  by (relation "measure (\<lambda>n. n)") simp_all

declare natString.simps [simp del]

definition exampleNumberToString :: "real \<Rightarrow> string" where
  "exampleNumberToString x = natString (nat \<lfloor>x\<rfloor>)"

definition exampleTrim :: "string \<Rightarrow> string" where
  "exampleTrim s = rev (dropWhile (\<lambda>c. c = CHR '' '') (rev (dropWhile (\<lambda>c. c = CHR '' '') s)))"

definition exampleLower :: "string \<Rightarrow> string" where
  "exampleLower s = map (\<lambda>c. if 65 \<le> (of_char c :: nat) \<and> (of_char c :: nat) \<le> 90
                              then char_of (of_char c + (32 :: nat)) else c) s"

definition exampleJs :: js where
  "exampleJs =
     \<lparr> parseNumber = exampleParseNumber,
       numberToString = exampleNumberToString,
       trim = exampleTrim,
       toLowerCase = exampleLower,
       localeCompare = codeUnitCompare,
       matchesNumberHeader = (\<lambda>h. includesStr (exampleLower h) ''no'' \<or> includesStr h ''#''),
       matchesSkipCol = (\<lambda>h. exampleLower h \<in> set [''no'', ''no.'', ''#'', ''average'', ''avg'', ''mean'', ''count'', ''total'', ''id'']),
       matchesOverall = (\<lambda>h. includesStr (exampleLower h) ''total''),
       matchesAverage = (\<lambda>h. includesStr (exampleLower h) ''average'' \<or> includesStr (exampleLower h) ''avg''
                              \<or> includesStr (exampleLower h) ''mean''),
       CATEGORY_KEYWORDS = [(''cat-5'', [''work''])],
       respondentIdHeader = ''respondentId'' \<rparr>"

text \<open>
  Frequency tables with the headers No, Question, 3, 2, 1: a label row and two question
  rows. In \<open>frequencyTable\<close> the questions have the totals 3 and 2; in
  \<open>repeatedTable\<close> both question rows carry the number 1 and the same text; in
  \<open>fractionalTable\<close> a count cell holds 2.5.
\<close>

definition frequencyHeaders :: "string list" where
  "frequencyHeaders = [''No'', ''Question'', ''3'', ''2'', ''1'']"

definition frequencyRow :: "cell \<Rightarrow> cell \<Rightarrow> cell \<Rightarrow> cell \<Rightarrow> cell \<Rightarrow> row" where
  "frequencyRow n q c3 c2 c1 = [(''No'', n), (''Question'', q), (''3'', c3), (''2'', c2), (''1'', c1)]"

definition frequencyTable :: "row list" where
  "frequencyTable =
     [frequencyRow (Str ''number'') (Str ''question'') (Str ''agree'') (Str ''neutral'') (Str ''disagree''),
      frequencyRow (Num 1) (Str ''Work is rewarding'') (Num 2) (Num 1) (Num 0),
      frequencyRow (Num 2) (Str ''Pay is fair'') (Num 1) (Num 0) (Num 1)]"

definition repeatedTable :: "row list" where
  "repeatedTable =
     [frequencyRow (Str ''number'') (Str ''question'') (Str ''agree'') (Str ''neutral'') (Str ''disagree''),
      frequencyRow (Num 1) (Str ''Work is rewarding'') (Num 0) (Num 0) (Num 1),
      frequencyRow (Num 1) (Str ''Work is rewarding'') (Num 1) (Num 0) (Num 0)]"

definition fractionalTable :: "row list" where
  "fractionalTable =
     [frequencyRow (Str ''number'') (Str ''question'') (Str ''agree'') (Str ''neutral'') (Str ''disagree''),
      frequencyRow (Num 1) (Str ''Work is rewarding'') (Num (5 / 2)) (Num 0) (Num 0),
      frequencyRow (Num 2) (Str ''Pay is fair'') (Num 1) (Num 0) (Num 0)]"

definition frequencyQuestions :: "QuestionFreq list" where
  "frequencyQuestions =
     [\<lparr>QuestionFreq.number = 1, text' = ''Work is rewarding'',
        counts = [(3, 2), (2, 1), (1, 0)], total = 3, weightedAvg = None\<rparr>,
      \<lparr>QuestionFreq.number = 2, text' = ''Pay is fair'',
        counts = [(3, 1), (2, 0), (1, 1)], total = 2, weightedAvg = None\<rparr>]"

section \<open>Properties\<close>

text \<open>
  C10. If the responses list is empty or the questions list is empty, \<^verbatim>\<open>runAnalysis\<close>
  returns the empty array, for every settings value.
\<close>

theorem runAnalysis_empty:
  "runAnalysis [] qs st = [] \<and> runAnalysis rs [] st = []"
  by (simp add: runAnalysis_def)

subsection \<open>Sums and means\<close>

lemma foldl_add_sum_list:
  "foldl (\<lambda>s v. s + f v) a xs = a + (\<Sum>v\<leftarrow>xs. f v)" for a :: real
  by (induction xs arbitrary: a) (simp_all add: add.assoc)

lemma calcMean_sum_list:
  "calcMean vs = (if vs = [] then 0 else sum_list vs / real (length vs))"
  using foldl_add_sum_list [of "\<lambda>v. v" 0 vs] by (simp add: calcMean_def)

subsection \<open>Classification\<close>


subsection \<open>Standard deviation\<close>

text \<open>
  C5. \<^verbatim>\<open>calcStdDev\<close> is the population standard deviation: the square root of the sum
  of squared deviations from the mean divided by \<open>N\<close> (not \<open>N - 1\<close>). It is never
  negative, the radicand is never negative and the division is by \<open>N > 1\<close> only, and the
  result is 0 for the empty list and for a single value.
\<close>

theorem calcStdDev_population:
  "calcStdDev vs =
     (if length vs \<le> 1 then 0
      else sqrt ((\<Sum>v\<leftarrow>vs. (v - sum_list vs / real (length vs)) ^ 2) / real (length vs)))
   \<and> 0 \<le> calcStdDev vs
   \<and> 0 \<le> (\<Sum>v\<leftarrow>vs. (v - sum_list vs / real (length vs)) ^ 2)
   \<and> calcStdDev [] = 0 \<and> calcStdDev [x] = 0"
proof -
  have eq: "calcStdDev vs =
     (if length vs \<le> 1 then 0
      else sqrt ((\<Sum>v\<leftarrow>vs. (v - sum_list vs / real (length vs)) ^ 2) / real (length vs)))"
    using foldl_add_sum_list [of "\<lambda>v. (v - calcMean vs) ^ 2" 0 vs]
    by (auto simp: calcStdDev_def Let_def calcMean_sum_list)
  have nn: "0 \<le> (\<Sum>v\<leftarrow>vs. (v - c) ^ 2)" for c :: real
    by (rule sum_list_nonneg) auto
  have "0 \<le> calcStdDev vs"
    unfolding eq using nn by simp
  moreover have "calcStdDev [] = 0" "calcStdDev [x] = 0"
    by (simp_all add: calcStdDev_def)
  ultimately show ?thesis using eq nn by blast
qed

subsection \<open>Low and high ratios\<close>

lemma runAnalysis_nth:
  "rs \<noteq> [] \<Longrightarrow> i < length qs \<Longrightarrow>
   runAnalysis rs qs st ! i = analyseQuestion rs st (calcOverallScores rs (map key qs)) (qs ! i)"
  by (auto simp: runAnalysis_def Let_def)

lemma length_runAnalysis:
  "rs \<noteq> [] \<Longrightarrow> length (runAnalysis rs qs st) = length qs"
  by (auto simp: runAnalysis_def Let_def)

lemma present_map_filter: "present (map f xs) = List.map_filter f xs"
  by (induction xs) (auto simp: present_def List.map_filter_simps)

lemma ratio_analyseQuestion:
  "lowRatio (analyseQuestion rs st ov q) =
     round2 (if List.map_filter (\<lambda>r. answers r (key q)) rs = [] then 0
             else real (length (filter (\<lambda>v. v \<le> 2) (List.map_filter (\<lambda>r. answers r (key q)) rs)))
                  / real (length (List.map_filter (\<lambda>r. answers r (key q)) rs)))"
  "highRatio (analyseQuestion rs st ov q) =
     round2 (if List.map_filter (\<lambda>r. answers r (key q)) rs = [] then 0
             else real (length (filter (\<lambda>v. v \<ge> 4) (List.map_filter (\<lambda>r. answers r (key q)) rs)))
                  / real (length (List.map_filter (\<lambda>r. answers r (key q)) rs)))"
  by (simp_all add: analyseQuestion_def Let_def present_map_filter del: getQuadrant.simps getPriority.simps)

lemma round2_zero: "round2 0 = 0"
  by (simp add: round2_def Math_round_def)

lemma round2_sum_le:
  assumes "a + b \<le> 1"
  shows "round2 a + round2 b \<le> 101 / 100"
proof -
  have "\<lfloor>a * 100 + 1 / 2\<rfloor> + \<lfloor>b * 100 + 1 / 2\<rfloor> \<le> \<lfloor>(a * 100 + 1 / 2) + (b * 100 + 1 / 2)\<rfloor>"
    by (rule le_floor_add)
  also have "\<dots> \<le> \<lfloor>(101::real)\<rfloor>"
    using assms by (intro floor_mono) simp
  finally have "\<lfloor>a * 100 + 1 / 2\<rfloor> + \<lfloor>b * 100 + 1 / 2\<rfloor> \<le> 101" by simp
  then have "real_of_int (\<lfloor>a * 100 + 1 / 2\<rfloor> + \<lfloor>b * 100 + 1 / 2\<rfloor>) \<le> 101"
    by linarith
  then show ?thesis
    by (simp add: round2_def Math_round_def)
qed

lemma low_high_count:
  "length (filter (\<lambda>v. v \<le> 2) vs) + length (filter (\<lambda>v. v \<ge> 4) vs) \<le> length vs" for vs :: "real list"
  by (induction vs) auto

lemma ratios_sum_le_1:
  fixes vs :: "real list"
  shows "(if vs = [] then 0 else real (length (filter (\<lambda>v. v \<le> 2) vs)) / real (length vs))
       + (if vs = [] then 0 else real (length (filter (\<lambda>v. v \<ge> 4) vs)) / real (length vs)) \<le> 1"
proof (cases "vs = []")
  case True then show ?thesis by simp
next
  case False
  then have pos: "0 < real (length vs)" by simp
  have "real (length (filter (\<lambda>v. v \<le> 2) vs)) + real (length (filter (\<lambda>v. v \<ge> 4) vs)) \<le> real (length vs)"
    using low_high_count [of vs] by linarith
  then have "(real (length (filter (\<lambda>v. v \<le> 2) vs)) + real (length (filter (\<lambda>v. v \<ge> 4) vs))) / real (length vs) \<le> 1"
    using pos by simp
  with False show ?thesis by (simp add: add_divide_distrib)
qed

lemma map_filter_eightRespondents: "List.map_filter (\<lambda>r. answers r ''q1'') eightRespondents = [1,5,5,5,5,5,5,5]"
  by (simp add: eightRespondents_def List.map_filter_simps exampleResponse_def numeral_eq_Suc)




subsection \<open>Departments\<close>

lemma newSet_aux:
  "distinct s \<Longrightarrow> distinct (foldl (\<lambda>s x. if x \<in> set s then s else s @ [x]) s xs)
      \<and> set (foldl (\<lambda>s x. if x \<in> set s then s else s @ [x]) s xs) = set s \<union> set xs"
  by (induction xs arbitrary: s) auto

lemma distinct_newSet: "distinct (newSet xs)"
  and set_newSet: "set (newSet xs) = set xs"
  using newSet_aux [of "[]" xs] by (simp_all add: newSet_def)

lemma set_insertBy: "set (insertBy cmp x ys) = insert x (set ys)"
  by (induction ys) auto

lemma distinct_insertBy: "distinct (insertBy cmp x ys) = (x \<notin> set ys \<and> distinct ys)"
  by (induction ys) (auto simp: set_insertBy)

lemma set_sortDepartments: "set (sortDepartments cmp ds) = set ds"
  by (induction ds) (simp_all add: sortDepartments_def set_insertBy)

lemma distinct_sortDepartments: "distinct (sortDepartments cmp ds) = distinct ds"
  using set_sortDepartments [of cmp]
  by (induction ds) (simp_all add: sortDepartments_def distinct_insertBy)

lemma length_sortDepartments: "length (sortDepartments cmp ds) = length ds"
proof -
  have "length (insertBy cmp x ys) = Suc (length ys)" for x ys
    by (induction ys) auto
  then show ?thesis by (induction ds) (simp_all add: sortDepartments_def)
qed

lemma sorted_insertBy:
  assumes trans: "\<And>a b c. cmp a b \<le> 0 \<Longrightarrow> cmp b c \<le> 0 \<Longrightarrow> cmp a c \<le> 0"
      and total: "\<And>a b. cmp a b \<le> 0 \<or> cmp b a \<le> 0"
  shows "sorted_wrt (\<lambda>a b. cmp a b \<le> 0) ys \<Longrightarrow> sorted_wrt (\<lambda>a b. cmp a b \<le> 0) (insertBy cmp x ys)"
proof (induction ys)
  case Nil
  then show ?case by simp
next
  case (Cons y ys)
  from Cons.prems have tl: "sorted_wrt (\<lambda>a b. cmp a b \<le> 0) ys"
    and hd: "\<forall>z\<in>set ys. cmp y z \<le> 0" by simp_all
  show ?case
  proof (cases "cmp x y \<le> 0")
    case True
    have "\<forall>z\<in>set ys. cmp x z \<le> 0"
    proof
      fix z assume "z \<in> set ys"
      with hd have "cmp y z \<le> 0" by blast
      with True show "cmp x z \<le> 0" by (rule trans)
    qed
    with True Cons.prems show ?thesis by simp
  next
    case False
    with total [of x y] have "cmp y x \<le> 0" by blast
    with hd have "\<forall>z\<in>set (insertBy cmp x ys). cmp y z \<le> 0"
      by (simp add: set_insertBy)
    with False Cons.IH [OF tl] show ?thesis by simp
  qed
qed

lemma sorted_sortDepartments:
  assumes trans: "\<And>a b c. cmp a b \<le> 0 \<Longrightarrow> cmp b c \<le> 0 \<Longrightarrow> cmp a c \<le> 0"
      and total: "\<And>a b. cmp a b \<le> 0 \<or> cmp b a \<le> 0"
  shows "sorted_wrt (\<lambda>a b. cmp a b \<le> 0) (sortDepartments cmp ds)"
proof (induction ds)
  case Nil
  show ?case by (simp add: sortDepartments_def)
next
  case (Cons d ds)
  have "sortDepartments cmp (d # ds) = insertBy cmp d (sortDepartments cmp ds)"
    by (simp add: sortDepartments_def)
  with sorted_insertBy [of cmp "sortDepartments cmp ds" d, OF trans total Cons.IH]
  show ?case by simp
qed

lemma set_departmentsOf:
  "set (departmentsOf cmp rs) = {d \<in> SurveyResponse.department ` set rs. d \<noteq> []}"
  by (auto simp: departmentsOf_def set_sortDepartments set_newSet)

lemma distinct_departmentsOf: "distinct (departmentsOf cmp rs)"
  by (simp add: departmentsOf_def distinct_sortDepartments distinct_newSet)

lemma runDepartmentAnalysis_product:
  "runDepartmentAnalysis cmp rs qs ov =
     map (\<lambda>(d, q). departmentEntry (filter (\<lambda>r. SurveyResponse.department r = d) rs) ov d q)
       (List.product (departmentsOf cmp rs) qs)"
  unfolding runDepartmentAnalysis_def Let_def
  by (induction "departmentsOf cmp rs") (simp_all add: List.product_concat_map map_concat comp_def)

lemma codeUnitCompare_total: "codeUnitCompare a b \<le> 0 \<or> codeUnitCompare b a \<le> 0"
proof (induction a b rule: codeUnitCompare.induct)
  case (4 a as b bs)
  then show ?case by (cases "(of_char a :: nat) < of_char b"; cases "(of_char b :: nat) < of_char a") simp_all
qed simp_all

lemma codeUnitCompare_trans:
  "codeUnitCompare a b \<le> 0 \<Longrightarrow> codeUnitCompare b c \<le> 0 \<Longrightarrow> codeUnitCompare a c \<le> 0"
proof (induction a b arbitrary: c rule: codeUnitCompare.induct)
  case 1 then show ?case by simp
next
  case (2 b bs) then show ?case by (cases c) simp_all
next
  case (3 a as) then show ?case by simp
next
  case (4 a as b bs)
  show ?case
  proof (cases c)
    case Nil
    with 4 show ?thesis by simp
  next
    case (Cons x xs)
    define na nb nx where "na = (of_char a :: nat)" and "nb = (of_char b :: nat)" and "nx = (of_char x :: nat)"
    have ab: "na \<le> nb" using "4.prems"(1) unfolding na_def nb_def by (simp split: if_splits)
    have bx: "nb \<le> nx" using "4.prems"(2) unfolding Cons nb_def nx_def by (simp split: if_splits)
    show ?thesis
    proof (cases "na < nx")
      case True
      then show ?thesis unfolding Cons na_def nx_def by simp
    next
      case False
      with ab bx have eq: "na = nb" "nb = nx" by simp_all
      from eq "4.prems"(1) have 1: "codeUnitCompare as bs \<le> 0" unfolding na_def nb_def by simp
      from eq "4.prems"(2) have 2: "codeUnitCompare bs xs \<le> 0" unfolding Cons nb_def nx_def by simp
      from eq have "\<not> na < nb" "\<not> nb < na" by simp_all
      then have "codeUnitCompare as xs \<le> 0"
        using "4.IH" [OF _ _ 1 2] unfolding na_def nb_def by simp
      with eq show ?thesis unfolding Cons na_def nb_def nx_def by simp
    qed
  qed
qed

lemma fields_analyseQuestion:
  "AnalysisResult.questionKey (analyseQuestion rs st ov q) = key q"
  "AnalysisResult.mean (analyseQuestion rs st ov q) = round2 (calcMean (List.map_filter (\<lambda>r. answers r (key q)) rs))"
  by (simp_all add: analyseQuestion_def Let_def present_map_filter del: getQuadrant.simps getPriority.simps)

lemma find_runAnalysis_mean:
  assumes "find (\<lambda>r. AnalysisResult.questionKey r = k) (runAnalysis rs qs st) = Some res"
  shows "AnalysisResult.mean res = round2 (calcMean (List.map_filter (\<lambda>r. answers r k) rs))"
proof -
  from assms have "res \<in> set (runAnalysis rs qs st)" and k: "AnalysisResult.questionKey res = k"
    by (auto simp: find_Some_iff in_set_conv_nth)
  then obtain q where "res = analyseQuestion rs st (calcOverallScores rs (map key qs)) q"
    by (auto simp: runAnalysis_def Let_def split: if_splits)
  with k show ?thesis by (simp add: fields_analyseQuestion)
qed

lemma departmentEntry_record:
  "departmentEntry drs ov d q =
     \<lparr> department = d, questionKey = key q,
       mean = round2 (calcMean (List.map_filter (\<lambda>r. answers r (key q)) drs)),
       diffFromOverall =
         (case find (\<lambda>r. AnalysisResult.questionKey r = key q) ov of
            None \<Rightarrow> 0
          | Some res \<Rightarrow> round2 (calcMean (List.map_filter (\<lambda>r. answers r (key q)) drs) - AnalysisResult.mean res)) \<rparr>"
  by (simp add: departmentEntry_def Let_def present_map_filter split: option.splits)

text \<open>
  C3 (as amended). In \<^verbatim>\<open>runDepartmentAnalysis\<close> the empty department string is not a
  department: \<^verbatim>\<open>filter(Boolean)\<close> drops it, no entry of the output carries the empty
  department, and (when there is a question) the departments of the output are exactly
  the non-empty department strings of the responses.
\<close>

theorem empty_department_excluded:
  "[] \<notin> set (map DepartmentAnalysis.department (runDepartmentAnalysis cmp rs qs ov))
   \<and> set (map DepartmentAnalysis.department (runDepartmentAnalysis cmp rs qs ov)) =
       (if qs = [] then {} else {d \<in> SurveyResponse.department ` set rs. d \<noteq> []})"
proof -
  have "set (map DepartmentAnalysis.department (runDepartmentAnalysis cmp rs qs ov)) =
          (if qs = [] then {} else set (departmentsOf cmp rs))"
  proof -
    have "map DepartmentAnalysis.department (runDepartmentAnalysis cmp rs qs ov) =
            map fst (List.product (departmentsOf cmp rs) qs)"
      by (simp add: runDepartmentAnalysis_product departmentEntry_record case_prod_beta comp_def)
    moreover have "set (map fst (List.product ds qs)) = (if qs = [] then {} else set ds)" for ds :: "string list"
      by (cases qs) (auto simp: image_iff)
    ultimately show ?thesis by simp
  qed
  then show ?thesis by (simp add: set_departmentsOf)
qed

text \<open>
  The claim as first stated: respondents with the empty department form a group of their
  own in the output. With one respondent of no department and one of department A, the
  output has the entry of A only.
\<close>

theorem empty_department_counterexample:
  "runDepartmentAnalysis codeUnitCompare
     [exampleResponse [] [(''q1'', 3)], exampleResponse ''A'' [(''q1'', 4)]]
     [exampleQuestion ''q1''] []
   = [\<lparr> department = ''A'', questionKey = ''q1'', mean = 4, diffFromOverall = 0 \<rparr>]"
  by (simp add: runDepartmentAnalysis_def departmentsOf_def newSet_def sortDepartments_def
      departmentEntry_record exampleResponse_def exampleQuestion_def List.map_filter_simps
      calcMean_def round2_def Math_round_def)


lemma departmentsOf_six: "departmentsOf codeUnitCompare sixRespondents = [''A'', ''B'']"
  by (simp add: departmentsOf_def sixRespondents_def exampleResponse_def newSet_def sortDepartments_def)


subsection \<open>Distribution\<close>

lemma update_fresh: "k \<notin> fst ` set al \<Longrightarrow> AList.update k v al = al @ [(k, v)]"
  by (induction al) auto

lemma initCounts_upto:
  "\<forall>p\<in>set acc. fst p < of_int a \<Longrightarrow>
   initCounts (of_int a) (of_int b) acc = acc @ map (\<lambda>i. (of_int i, 0)) [a..b]"
proof (induction "nat (b + 1 - a)" arbitrary: a acc)
  case 0
  then have "\<not> a \<le> b" by simp
  then show ?case by (simp add: initCounts.simps [of "of_int a"])
next
  case (Suc n)
  then have le: "a \<le> b" by simp
  have fresh: "of_int a \<notin> fst ` set acc"
    using Suc.prems by force
  have n: "n = nat (b + 1 - (a + 1))" using Suc.hyps(2) by simp
  have small: "\<forall>p\<in>set (acc @ [(of_int a, 0)]). fst p < of_int (a + 1)"
    using Suc.prems by force
  have "initCounts (of_int a) (of_int b) acc
          = initCounts (of_int (a + 1)) (of_int b) (acc @ [(of_int a, 0)])"
    using le by (subst initCounts.simps) (simp add: update_fresh [OF fresh])
  also have "\<dots> = (acc @ [(of_int a, 0)]) @ map (\<lambda>i. (of_int i, 0)) [a + 1..b]"
    by (rule Suc.hyps(1) [OF n small])
  also have "\<dots> = acc @ map (\<lambda>i. (of_int i, 0)) [a..b]"
    using le by (simp add: upto_rec1 [of a b])
  finally show ?case .
qed

lemma update_mapped:
  assumes "inj_on f (set is)" and "distinct is"
  shows "j \<in> set is \<Longrightarrow>
    AList.update (f j) v (map (\<lambda>i. (f i, c i)) is) = map (\<lambda>i. (f i, if i = j then v else c i)) is"
  using assms
proof (induction "is")
  case Nil
  then show ?case by simp
next
  case (Cons i "is")
  show ?case
  proof (cases "i = j")
    case True
    with Cons.prems have "j \<notin> set is" by simp
    then have "map (\<lambda>i. (f i, if i = j then v else c i)) is = map (\<lambda>i. (f i, c i)) is"
      by (induction "is") auto
    with True show ?thesis by simp
  next
    case False
    with Cons.prems have "j \<in> set is" and "f i \<noteq> f j"
      by (auto simp: inj_on_def)
    with Cons False show ?thesis by simp
  qed
qed

lemma countStep_mapped:
  assumes "inj_on f (set is)" and "distinct is"
  shows "countStep k (map (\<lambda>i. (f i, c i)) is) r =
     map (\<lambda>i. (f i, c i + (if answers r k = Some (f i) then 1 else 0))) is"
proof (cases "answers r k")
  case None
  then show ?thesis by (simp add: countStep_def)
next
  case (Some v)
  show ?thesis
  proof (cases "v \<in> f ` set is")
    case False
    then have "map_of (map (\<lambda>i. (f i, c i)) is) v = None"
      by (simp add: map_of_eq_None_iff image_image)
    moreover from False have "\<And>i. i \<in> set is \<Longrightarrow> v \<noteq> f i" by blast
    ultimately show ?thesis using Some by (simp add: countStep_def)
  next
    case True
    then obtain j where j: "j \<in> set is" "v = f j" by blast
    have inj: "\<And>i. i \<in> set is \<Longrightarrow> (f j = f i) = (i = j)"
      using assms(1) j(1) by (auto simp: inj_on_def)
    have "(f j, c j) \<in> set (map (\<lambda>i. (f i, c i)) is)" using j by force
    moreover have "distinct (map fst (map (\<lambda>i. (f i, c i)) is))"
      using assms by (simp add: comp_def distinct_map)
    ultimately have m: "map_of (map (\<lambda>i. (f i, c i)) is) (f j) = Some (c j)"
      by (rule_tac map_of_is_SomeI)
    have "countStep k (map (\<lambda>i. (f i, c i)) is) r =
            AList.update (f j) (c j + 1) (map (\<lambda>i. (f i, c i)) is)"
      using Some j m by (simp add: countStep_def)
    also have "\<dots> = map (\<lambda>i. (f i, if i = j then c j + 1 else c i)) is"
      by (rule update_mapped [OF assms j(1)])
    also have "\<dots> = map (\<lambda>i. (f i, c i + (if answers r k = Some (f i) then 1 else 0))) is"
      using Some j inj by auto
    finally show ?thesis .
  qed
qed

lemma foldl_countStep_mapped:
  assumes "inj_on f (set is)" and "distinct is"
  shows "foldl (countStep k) (map (\<lambda>i. (f i, c i)) is) rs =
     map (\<lambda>i. (f i, c i + real (length (filter (\<lambda>r. answers r k = Some (f i)) rs)))) is"
proof (induction rs arbitrary: c)
  case Nil
  show ?case by simp
next
  case (Cons r rs)
  show ?case
    unfolding foldl_Cons countStep_mapped [OF assms] Cons.IH
    by (rule map_cong) auto
qed

lemma getDistribution_buckets:
  "getDistribution rs k (of_int a) (of_int b) =
     map (\<lambda>i. (of_int i, real (length (filter (\<lambda>r. answers r k = Some (of_int i)) rs)))) [a..b]"
proof -
  have init: "initCounts (of_int a) (of_int b) [] = map (\<lambda>i. (of_int i, 0)) [a..b]"
    using initCounts_upto [of "[]" a b] by simp
  have inj: "inj_on (of_int :: int \<Rightarrow> real) (set [a..b])"
    by (simp add: inj_on_def)
  show ?thesis
    unfolding getDistribution_def Let_def init
      foldl_countStep_mapped [of of_int "[a..b]" k "\<lambda>i. 0" rs, OF inj distinct_upto]
    by simp
qed

lemma indicator_sum_upto:
  "(\<Sum>i\<leftarrow>[a..b]. if x = Some (real_of_int i) then 1 else 0) =
     (if (case x of None \<Rightarrow> False | Some v \<Rightarrow> v \<in> \<int> \<and> of_int a \<le> v \<and> v \<le> of_int b) then (1::nat) else 0)"
proof (cases x)
  case None
  then show ?thesis by simp
next
  case (Some v)
  show ?thesis
  proof (cases "\<exists>j. a \<le> j \<and> j \<le> b \<and> v = of_int j")
    case True
    then obtain j where j: "a \<le> j" "j \<le> b" "v = of_int j" by blast
    have "(\<Sum>i\<leftarrow>[a..b]. if x = Some (real_of_int i) then 1 else 0) = (\<Sum>i\<in>{a..b}. if i = j then (1::nat) else 0)"
      using Some j by (simp add: sum_list_distinct_conv_sum_set eq_commute)
    also have "\<dots> = 1" using j by simp
    finally show ?thesis using Some j by simp
  next
    case False
    then have "\<And>i. i \<in> set [a..b] \<Longrightarrow> v \<noteq> of_int i" by auto
    then have "(\<Sum>i\<leftarrow>[a..b]. if x = Some (real_of_int i) then 1 else 0) = (\<Sum>i\<leftarrow>[a..b]. (0::nat))"
      using Some by (intro arg_cong [where f = sum_list] map_cong) auto
    then have z: "(\<Sum>i\<leftarrow>[a..b]. if x = Some (real_of_int i) then 1 else 0) = (0::nat)"
      by simp
    have "\<not> (v \<in> \<int> \<and> of_int a \<le> v \<and> v \<le> of_int b)"
      using False by (auto elim!: Ints_cases)
    then have "(if (case x of None \<Rightarrow> False | Some v \<Rightarrow> v \<in> \<int> \<and> of_int a \<le> v \<and> v \<le> of_int b) then (1::nat) else 0) = 0"
      unfolding Some by simp
    with z show ?thesis by (simp only:)
  qed
qed

lemma real_sum_list: "real (sum_list (map f xs)) = (\<Sum>x\<leftarrow>xs. real (f x))"
  by (induction xs) simp_all

lemma count_sum:
  "(\<Sum>i\<leftarrow>[a..b]. length (filter (\<lambda>r. answers r k = Some (real_of_int i)) rs)) =
     length (filter (\<lambda>r. case answers r k of None \<Rightarrow> False | Some v \<Rightarrow> v \<in> \<int> \<and> of_int a \<le> v \<and> v \<le> of_int b) rs)"
proof (induction rs)
  case Nil
  show ?case by simp
next
  case (Cons r rs)
  have "(\<Sum>i\<leftarrow>[a..b]. length (filter (\<lambda>r. answers r k = Some (real_of_int i)) (r # rs))) =
        (\<Sum>i\<leftarrow>[a..b]. (if answers r k = Some (real_of_int i) then 1 else 0)
           + length (filter (\<lambda>r. answers r k = Some (real_of_int i)) rs))"
    by (intro arg_cong [where f = sum_list] map_cong) auto
  also have "\<dots> = (\<Sum>i\<leftarrow>[a..b]. if answers r k = Some (real_of_int i) then 1 else 0)
           + (\<Sum>i\<leftarrow>[a..b]. length (filter (\<lambda>r. answers r k = Some (real_of_int i)) rs))"
    by (simp add: sum_list_addf)
  finally show ?case
    unfolding Cons.IH indicator_sum_upto by simp
qed

text \<open>
  C9. For integer scale bounds, \<^verbatim>\<open>getDistribution\<close> returns one bucket per integer of
  \<open>[scaleMin, scaleMax]\<close>, in ascending order, \<open>scaleMax - scaleMin + 1\<close> of them, all
  zero when there are no responses. The count of a bucket is the number of responses whose
  answer for the key is exactly that integer, and the counts sum to the number of
  responses whose answer is an integer within the bounds: a missing, out-of-range or
  non-integer answer is counted in no bucket.
\<close>

theorem getDistribution_integer_scale:
  "map fst (getDistribution rs k (of_int a) (of_int b)) = map of_int [a..b]
   \<and> length (getDistribution rs k (of_int a) (of_int b)) = nat (b - a + 1)
   \<and> getDistribution [] k (of_int a) (of_int b) = map (\<lambda>i. (of_int i, 0)) [a..b]
   \<and> map snd (getDistribution rs k (of_int a) (of_int b)) =
       map (\<lambda>i. real (length (filter (\<lambda>r. answers r k = Some (of_int i)) rs))) [a..b]
   \<and> sum_list (map snd (getDistribution rs k (of_int a) (of_int b))) =
       real (length (filter (\<lambda>r. case answers r k of None \<Rightarrow> False
                                     | Some v \<Rightarrow> v \<in> \<int> \<and> of_int a \<le> v \<and> v \<le> of_int b) rs))"
proof -
  have "sum_list (map snd (getDistribution rs k (of_int a) (of_int b))) =
      real (\<Sum>i\<leftarrow>[a..b]. length (filter (\<lambda>r. answers r k = Some (real_of_int i)) rs))"
    by (simp add: getDistribution_buckets comp_def real_sum_list)
  then show ?thesis
    unfolding count_sum by (simp add: getDistribution_buckets comp_def)
qed

theorem getDistribution_integer_scale_witness:
  "getDistribution distributionRespondents ''q1'' 1 5 = [(1, 2), (2, 0), (3, 1), (4, 0), (5, 3)]"
proof -
  have "map fst (getDistribution distributionRespondents ''q1'' (of_int 1) (of_int 5)) = [1, 2, 3, 4, 5]"
    and "map snd (getDistribution distributionRespondents ''q1'' (of_int 1) (of_int 5)) = [2, 0, 1, 0, 3]"
    using getDistribution_integer_scale [of distributionRespondents "''q1''" 1 5]
    by (simp_all add: distributionRespondents_def exampleResponse_def upto_rec1 [of 1] upto_rec1 [of 2]
        upto_rec1 [of 3] upto_rec1 [of 4] upto_rec1 [of 5])
  then have "zip (map fst (getDistribution distributionRespondents ''q1'' 1 5))
                 (map snd (getDistribution distributionRespondents ''q1'' 1 5))
             = [(1, 2), (2, 0), (3, 1), (4, 0), (5, 3)]"
    by simp
  then show ?thesis by (simp add: zip_map_fst_snd)
qed

subsection \<open>Importance\<close>

lemma foldl_corrStep:
  "foldl (corrStep x y mx my) (a, b, c) js =
     (a + (\<Sum>i\<leftarrow>js. (x ! i - mx) * (y ! i - my)),
      b + (\<Sum>i\<leftarrow>js. (x ! i - mx) * (x ! i - mx)),
      c + (\<Sum>i\<leftarrow>js. (y ! i - my) * (y ! i - my)))"
  by (induction js arbitrary: a b c) (simp_all add: corrStep_def Let_def add.assoc)

lemma sum_upt_zip:
  assumes "length ys = length xs"
  shows "(\<Sum>i\<leftarrow>[0..<length xs]. f (xs ! i) (ys ! i)) = (\<Sum>(x, y)\<leftarrow>zip xs ys. f x y)"
proof -
  have "map (\<lambda>i. f (xs ! i) (ys ! i)) [0..<length xs] = map (\<lambda>(x, y). f x y) (zip xs ys)"
    using assms by (intro nth_equalityI) simp_all
  then show ?thesis by simp
qed

lemma sum_upt_left:
  "(\<Sum>i\<leftarrow>[0..<length xs]. f (xs ! i)) = (\<Sum>x\<leftarrow>xs. f x)"
proof -
  have "map (\<lambda>i. f (xs ! i)) [0..<length xs] = map f xs"
    by (intro nth_equalityI) simp_all
  then show ?thesis by simp
qed

lemma calcCorrelation_pearson:
  assumes "length y = length x"
  shows "calcCorrelation x y = pearson x y"
proof (cases "length x \<le> 1")
  case True
  then show ?thesis by (auto simp: calcCorrelation_def pearson_def Let_def)
next
  case False
  then have ne: "x \<noteq> []" "y \<noteq> []" using assms by auto
  have sq: "a * a = a ^ 2" for a :: real by (simp add: power2_eq_square)
  have xx: "(\<Sum>i\<leftarrow>[0..<length x]. (x ! i - m) * (x ! i - m)) = (\<Sum>v\<leftarrow>x. (v - m) ^ 2)" for m
    using sum_upt_left [of "\<lambda>v. (v - m) * (v - m)" x] by (simp add: sq)
  have yy: "(\<Sum>i\<leftarrow>[0..<length x]. (y ! i - m) * (y ! i - m)) = (\<Sum>v\<leftarrow>y. (v - m) ^ 2)" for m
    using sum_upt_left [of "\<lambda>v. (v - m) * (v - m)" y] assms by (simp add: sq)
  have xy: "(\<Sum>i\<leftarrow>[0..<length x]. (x ! i - m) * (y ! i - n)) = (\<Sum>(u, v)\<leftarrow>zip x y. (u - m) * (v - n))" for m n
    by (rule sum_upt_zip [OF assms])
  show ?thesis
    using False ne
    by (simp add: calcCorrelation_def pearson_def Let_def foldl_corrStep xx yy xy calcMean_sum_list)
qed

lemma quadratic_sum:
  "(\<Sum>(u, v)\<leftarrow>ps. (u * t - v) ^ 2) =
     t ^ 2 * (\<Sum>(u, v)\<leftarrow>ps. u ^ 2) - 2 * t * (\<Sum>(u, v)\<leftarrow>ps. u * v) + (\<Sum>(u, v)\<leftarrow>ps. v ^ 2)"
  for t :: real
  by (induction ps) (auto simp: algebra_simps power2_eq_square)

lemma cauchy_schwarz_list:
  fixes ps :: "(real \<times> real) list"
  shows "(\<Sum>(u, v)\<leftarrow>ps. u * v) ^ 2 \<le> (\<Sum>(u, v)\<leftarrow>ps. u ^ 2) * (\<Sum>(u, v)\<leftarrow>ps. v ^ 2)"
proof -
  define A X Y where "A = (\<Sum>(u, v)\<leftarrow>ps. u * v)" and "X = (\<Sum>(u, v)\<leftarrow>ps. u ^ 2)"
    and "Y = (\<Sum>(u, v)\<leftarrow>ps. v ^ 2)"
  have q: "0 \<le> t ^ 2 * X - 2 * t * A + Y" for t
  proof -
    have "0 \<le> (\<Sum>(u, v)\<leftarrow>ps. (u * t - v) ^ 2)"
      by (rule sum_list_nonneg) auto
    then show ?thesis by (simp add: quadratic_sum A_def X_def Y_def)
  qed
  have X0: "0 \<le> X" unfolding X_def by (rule sum_list_nonneg) auto
  have Y0: "0 \<le> Y" unfolding Y_def by (rule sum_list_nonneg) auto
  show ?thesis
  proof (cases "X = 0")
    case True
    have "A = 0"
    proof (rule ccontr)
      assume "A \<noteq> 0"
      from q [of "(Y + 1) / (2 * A)"] True \<open>A \<noteq> 0\<close> show False by simp
    qed
    with True show ?thesis by (simp add: A_def [symmetric] X_def [symmetric] Y_def [symmetric])
  next
    case False
    with X0 have pos: "0 < X" by simp
    from q [of "A / X"] have "0 \<le> (A / X) ^ 2 * X - 2 * (A / X) * A + Y" .
    also have "(A / X) ^ 2 * X - 2 * (A / X) * A + Y = Y - A ^ 2 / X"
      using pos by (simp add: power2_eq_square field_simps)
    finally have "A ^ 2 / X \<le> Y" by simp
    then have "A ^ 2 \<le> Y * X" using pos by (simp add: pos_divide_le_eq)
    then show ?thesis by (simp add: A_def X_def Y_def mult.commute)
  qed
qed

lemma pearson_bounded:
  assumes "length ys = length xs"
  shows "\<bar>pearson xs ys\<bar> \<le> 1"
proof -
  define mx my where "mx = sum_list xs / real (length xs)" and "my = sum_list ys / real (length ys)"
  define ps where "ps = map (\<lambda>(x, y). (x - mx, y - my)) (zip xs ys)"
  define A X Y where "A = (\<Sum>(u, v)\<leftarrow>ps. u * v)" and "X = (\<Sum>(u, v)\<leftarrow>ps. u ^ 2)"
    and "Y = (\<Sum>(u, v)\<leftarrow>ps. v ^ 2)"
  have A: "(\<Sum>(x, y)\<leftarrow>zip xs ys. (x - mx) * (y - my)) = A"
    by (simp add: A_def ps_def comp_def case_prod_unfold)
  have "(\<Sum>x\<leftarrow>map fst (zip xs ys). (x - mx) ^ 2) = X"
    by (simp add: X_def ps_def comp_def case_prod_unfold)
  then have X: "(\<Sum>x\<leftarrow>xs. (x - mx) ^ 2) = X" using assms by simp
  have "(\<Sum>y\<leftarrow>map snd (zip xs ys). (y - my) ^ 2) = Y"
    by (simp add: Y_def ps_def comp_def case_prod_unfold)
  then have Y: "(\<Sum>y\<leftarrow>ys. (y - my) ^ 2) = Y" using assms by simp
  have cs: "A ^ 2 \<le> X * Y" unfolding A_def X_def Y_def by (rule cauchy_schwarz_list)
  have p: "pearson xs ys = (if length xs < 2 \<or> X = 0 \<or> Y = 0 then 0 else A / sqrt (X * Y))"
    unfolding pearson_def Let_def mx_def [symmetric] my_def [symmetric] A X Y ..
  show ?thesis
  proof (cases "length xs < 2 \<or> X = 0 \<or> Y = 0")
    case True
    with p show ?thesis by simp
  next
    case False
    have "0 \<le> X" unfolding X_def by (rule sum_list_nonneg) auto
    moreover have "0 \<le> Y" unfolding Y_def by (rule sum_list_nonneg) auto
    ultimately have "0 < X * Y" using False by simp
    then have pos: "0 < sqrt (X * Y)" by simp
    have "\<bar>A\<bar> = sqrt (A ^ 2)" by simp
    also have "\<dots> \<le> sqrt (X * Y)" using cs by (rule real_sqrt_le_mono)
    finally have "\<bar>A\<bar> / sqrt (X * Y) \<le> 1" using pos by simp
    with False p pos show ?thesis by simp
  qed
qed

lemma round2_unit:
  assumes "0 \<le> x" and "x \<le> 1"
  shows "0 \<le> round2 x \<and> round2 x \<le> 1"
proof -
  have "0 \<le> \<lfloor>x * 100 + 1 / 2\<rfloor>" using assms by simp
  moreover have "\<lfloor>x * 100 + 1 / 2\<rfloor> \<le> \<lfloor>(201 / 2 :: real)\<rfloor>"
    using assms by (intro floor_mono) simp
  then have "\<lfloor>x * 100 + 1 / 2\<rfloor> \<le> 100" by simp
  ultimately have "0 \<le> real_of_int \<lfloor>x * 100 + 1 / 2\<rfloor>" "real_of_int \<lfloor>x * 100 + 1 / 2\<rfloor> \<le> 100"
    by linarith+
  then show ?thesis by (simp add: round2_def Math_round_def)
qed

lemma calcOverallScores_overallScore:
  "calcOverallScores rs keys = map (overallScore keys) rs"
  by (simp add: calcOverallScores_def overallScore_def Let_def present_map_filter calcMean_sum_list)

lemma importance_analyseQuestion:
  "importance (analyseQuestion rs st ov q) =
     round2 \<bar>calcCorrelation (map (\<lambda>r. case answers r (key q) of None \<Rightarrow> 0 | Some v \<Rightarrow> v) rs) ov\<bar>"
  by (simp add: analyseQuestion_def Let_def del: getQuadrant.simps getPriority.simps)



subsection \<open>Department score matrix\<close>

lemma extractDepartmentScores_NoTextColumn_iff:
  "extractDepartmentScores env rws = Inl NoTextColumn \<longleftrightarrow>
     rws \<noteq> [] \<and>
     find (\<lambda>h. list_ex (\<lambda>r. longText 5 (map_of r h)) rws) (map fst (hd rws)) \<in> {None, Some []}"
  by (cases rws) (auto simp: extractDepartmentScores_def Let_def)

text \<open>
  C7. \<^verbatim>\<open>extractDepartmentScores\<close> is claimed to throw exactly when a precondition fails:
  no rows, no question-label column (a column with a string cell longer than 5
  characters), no qualifying department column, or no valid question row. The test
  \<^verbatim>\<open>if (!textCol)\<close> also holds for a label column whose header is the empty string: the
  one-row table with the cell \<open>Question text\<close> under the empty header and the score 3
  under the header \<open>A\<close> has a label column, and is refused with the message that the
  question text column is not found.
\<close>

theorem extractDepartmentScores_empty_header:
  "extractDepartmentScores env [[([], Str ''Question text''), (''A'', Num 3)]] = Inl NoTextColumn
   \<and> longText 5 (map_of [([], Str ''Question text''), (''A'', Num 3)] [])"
  by (simp add: extractDepartmentScores_def Let_def longText_def)

text \<open>
  The same table with the label column under the header \<open>Q\<close> is accepted, whenever the
  header \<open>A\<close> is neither a question-number header nor on the denylist and the label
  keeps more than 2 characters when trimmed.
\<close>

lemma extractDepartmentScores_named_header:
  assumes "\<not> matchesNumberHeader env ''A''" and "\<not> matchesSkipCol env (trim env ''A'')"
    and "2 < length (trim env ''Question text'')"
  shows "\<exists>d. extractDepartmentScores env [[(''Q'', Str ''Question text''), (''A'', Num 3)]] = Inr d"
  using assms
  by (simp add: extractDepartmentScores_def Let_def longText_def isDeptColumn_def Number_cell_def
      present_def String_or_empty_def enumerate_eq_zip)

subsection \<open>Frequency-distribution table\<close>

lemma pushScore_replicate: "pushScore i c x arr = arr @ replicate (nat \<lceil>c\<rceil> - i) x"
proof (induction i c x arr rule: pushScore.induct)
  case (1 i c x arr)
  show ?case
  proof (cases "real i < c")
    case True
    then have "int i < \<lceil>c\<rceil>" by (simp add: less_ceiling_iff)
    then have "nat \<lceil>c\<rceil> - i = Suc (nat \<lceil>c\<rceil> - Suc i)" by linarith
    with True 1 show ?thesis
      by (subst pushScore.simps) (simp add: replicate_app_Cons_same)
  next
    case False
    then have "\<lceil>c\<rceil> \<le> int i" by (simp add: ceiling_le_iff)
    then have "nat \<lceil>c\<rceil> - i = 0" by linarith
    with False show ?thesis by (subst pushScore.simps) simp
  qed
qed

lemma padNull_replicate: "padNull m arr = arr @ replicate (nat \<lceil>m\<rceil> - length arr) None"
proof (induction m arr rule: padNull.induct)
  case (1 m arr)
  show ?case
  proof (cases "real (length arr) < m")
    case True
    then have "int (length arr) < \<lceil>m\<rceil>" by (simp add: less_ceiling_iff)
    then have "nat \<lceil>m\<rceil> - length arr = Suc (nat \<lceil>m\<rceil> - Suc (length arr))" by linarith
    with True 1 show ?thesis
      by (subst padNull.simps) (simp add: replicate_app_Cons_same)
  next
    case False
    then have "\<lceil>m\<rceil> \<le> int (length arr)" by (simp add: ceiling_le_iff)
    then have "nat \<lceil>m\<rceil> - length arr = 0" by linarith
    with False show ?thesis by (subst padNull.simps) simp
  qed
qed

lemma rowIndices_upt: "rowIndices i m = [i..<nat \<lceil>m\<rceil>]"
proof (induction i m rule: rowIndices.induct)
  case (1 i m)
  show ?case
  proof (cases "real i < m")
    case True
    then have "int i < \<lceil>m\<rceil>" by (simp add: less_ceiling_iff)
    then have "i < nat \<lceil>m\<rceil>" by linarith
    with True 1 show ?thesis
      by (subst rowIndices.simps) (simp add: upt_conv_Cons)
  next
    case False
    then have "\<lceil>m\<rceil> \<le> int i" by (simp add: ceiling_le_iff)
    then have "nat \<lceil>m\<rceil> \<le> i" by linarith
    with False show ?thesis by (subst rowIndices.simps) simp
  qed
qed

lemma random_index:
  assumes "0 \<le> u" and "u < 1"
  shows "nat \<lfloor>u * (real i + 1)\<rfloor> \<le> i"
proof -
  have "u * (real i + 1) < 1 * (real i + 1)"
    using assms by (intro mult_strict_right_mono) simp_all
  then have "u * (real i + 1) < real_of_int (int i + 1)"
    by simp
  then have "\<lfloor>u * (real i + 1)\<rfloor> < int i + 1"
    by (simp only: floor_less_iff)
  then show ?thesis by linarith
qed

lemma fisherYates_mset:
  assumes rnd: "\<forall>n. 0 \<le> rnd n \<and> rnd n < 1"
  shows "k < length arr \<or> k = 0 \<Longrightarrow>
     mset (fst (fisherYates rnd k c arr)) = mset arr \<and> length (fst (fisherYates rnd k c arr)) = length arr"
proof (induction k arbitrary: c arr)
  case 0
  show ?case by simp
next
  case (Suc k)
  then have i: "Suc k < length arr" by simp
  let ?j = "nat \<lfloor>rnd c * (real (Suc k) + 1)\<rfloor>"
  have "?j \<le> Suc k" using rnd by (intro random_index) auto
  with i have j: "?j < length arr" by simp
  let ?arr = "arr[Suc k := arr ! ?j, ?j := arr ! Suc k]"
  have sw: "mset ?arr = mset arr" using i j by (simp add: mset_swap)
  have len: "length ?arr = length arr" by simp
  have "k < length ?arr \<or> k = 0" using i by simp
  from Suc.IH [OF this, of "Suc c"] sw len show ?case
    by (simp add: Let_def)
qed

lemma foldl_pushScore:
  "foldl (\<lambda>arr e. pushScore 0 (snd e) (Some (fst e)) arr) acc cs =
     acc @ concat (map (\<lambda>e. replicate (nat \<lceil>snd e\<rceil>) (Some (fst e))) cs)"
  by (induction cs arbitrary: acc) (simp_all add: pushScore_replicate)

lemma scoreArray_mset:
  assumes "\<forall>n. 0 \<le> rnd n \<and> rnd n < 1"
  shows "mset (fst (scoreArray rnd m c q)) =
           mset (padNull m (concat (map (\<lambda>e. replicate (nat \<lceil>snd e\<rceil>) (Some (fst e))) (counts q))))
       \<and> length (fst (scoreArray rnd m c q)) =
           length (padNull m (concat (map (\<lambda>e. replicate (nat \<lceil>snd e\<rceil>) (Some (fst e))) (counts q))))"
proof -
  let ?arr = "padNull m (concat (map (\<lambda>e. replicate (nat \<lceil>snd e\<rceil>) (Some (fst e))) (counts q)))"
  have "length ?arr - 1 < length ?arr \<or> length ?arr - 1 = 0" by (cases ?arr) simp_all
  from fisherYates_mset [OF assms this, of c] show ?thesis
    by (simp add: scoreArray_def Let_def foldl_pushScore)
qed

lemma scoreArraysFrom_nth:
  assumes "\<forall>n. 0 \<le> rnd n \<and> rnd n < 1"
  shows "length (scoreArraysFrom rnd m c qs) = length qs \<and>
     (\<forall>j<length qs.
        mset (scoreArraysFrom rnd m c qs ! j) =
          mset (padNull m (concat (map (\<lambda>e. replicate (nat \<lceil>snd e\<rceil>) (Some (fst e))) (counts (qs ! j)))))
      \<and> length (scoreArraysFrom rnd m c qs ! j) =
          length (padNull m (concat (map (\<lambda>e. replicate (nat \<lceil>snd e\<rceil>) (Some (fst e))) (counts (qs ! j))))))"
proof (induction qs arbitrary: c)
  case Nil
  show ?case by simp
next
  case (Cons q qs)
  obtain arr c' where sa: "scoreArray rnd m c q = (arr, c')" by (cases "scoreArray rnd m c q")
  with scoreArray_mset [OF assms, of m c q]
  have hd: "mset arr = mset (padNull m (concat (map (\<lambda>e. replicate (nat \<lceil>snd e\<rceil>) (Some (fst e))) (counts q))))"
    "length arr = length (padNull m (concat (map (\<lambda>e. replicate (nat \<lceil>snd e\<rceil>) (Some (fst e))) (counts q))))"
    by simp_all
  show ?case
  proof (intro conjI allI impI)
    show "length (scoreArraysFrom rnd m c (q # qs)) = length (q # qs)"
      using Cons.IH [of c'] sa by simp
  next
    fix j assume "j < length (q # qs)"
    then show "mset (scoreArraysFrom rnd m c (q # qs) ! j) =
          mset (padNull m (concat (map (\<lambda>e. replicate (nat \<lceil>snd e\<rceil>) (Some (fst e))) (counts ((q # qs) ! j)))))"
      using Cons.IH [of c'] sa hd by (cases j) simp_all
  next
    fix j assume "j < length (q # qs)"
    then show "length (scoreArraysFrom rnd m c (q # qs) ! j) =
          length (padNull m (concat (map (\<lambda>e. replicate (nat \<lceil>snd e\<rceil>) (Some (fst e))) (counts ((q # qs) ! j)))))"
      using Cons.IH [of c'] sa hd by (cases j) simp_all
  qed
qed

lemma count_concat_replicate:
  "count (mset (concat (map (\<lambda>e. replicate (n e) (Some (fst e))) cs))) (Some s) =
     (\<Sum>e\<leftarrow>cs. if fst e = s then n e else 0)"
  by (induction cs) auto

lemma length_concat_replicate:
  "length (concat (map (\<lambda>e. replicate (n e) (f e)) cs)) = (\<Sum>e\<leftarrow>cs. n e)"
  by (induction cs) auto

lemma sum_distinct_key:
  "distinct (map fst cs) \<Longrightarrow>
     (\<Sum>e\<leftarrow>cs. if fst e = s then n e else 0) = (case map_of cs s of Some c \<Rightarrow> n (s, c) | None \<Rightarrow> (0::nat))"
proof (induction cs)
  case Nil
  show ?case by simp
next
  case (Cons e cs)
  show ?case
  proof (cases "fst e = s")
    case True
    with Cons.prems have "s \<notin> fst ` set cs" by auto
    then have "(\<Sum>e\<leftarrow>cs. if fst e = s then n e else 0) = 0"
      by (induction cs) auto
    with True show ?thesis by (cases e) simp
  next
    case False
    with Cons show ?thesis by (cases e) auto
  qed
qed

lemma nat_ceiling_Nats: "c \<in> \<nat> \<Longrightarrow> real (nat \<lceil>c\<rceil>) = c"
  by (auto elim!: Nats_cases)

lemma Math_max_Max:
  assumes "xs \<noteq> []"
  shows "Math_max xs = Max (set xs)"
proof (cases xs)
  case Nil
  with assms show ?thesis by simp
next
  case (Cons a as)
  have flip: "(\<lambda>x s. max s x) = (max :: real \<Rightarrow> real \<Rightarrow> real)"
    by (intro ext) (rule max.commute)
  show ?thesis
    unfolding Cons Math_max_def Max.set_eq_fold foldl_conv_fold list.sel flip ..
qed

lemma distinct_scoreHeaderMapOf: "distinct (map fst (scoreHeaderMapOf env hs))"
proof -
  have "distinct (map fst m) \<Longrightarrow>
      distinct (map fst (foldl (\<lambda>m h. case parseNumber env h of
                     None \<Rightarrow> m
                   | Some num \<Rightarrow>
                       if of_int \<lfloor>num\<rfloor> = num \<and> num \<ge> 1 \<and> num \<le> 10
                       then AList.update num h m else m) m hs))" for m
    by (induction hs arbitrary: m) (auto simp: distinct_update split: option.splits)
  from this [of "[]"] show ?thesis by (simp add: scoreHeaderMapOf_def)
qed

lemma countCells_fold:
  "distinct (map fst es) \<Longrightarrow> fst ` set es \<inter> fst ` set cs = {} \<Longrightarrow>
   foldl (\<lambda>acc entry.
              case acc of (cs, tot) \<Rightarrow>
                let cnt = f entry
                in (AList.update (fst entry) cnt cs, tot + cnt))
           (cs, t) es
     = (cs @ map (\<lambda>e. (fst e, f e)) es, t + (\<Sum>e\<leftarrow>es. f e))" for t :: real
proof (induction es arbitrary: cs t)
  case Nil
  show ?case by simp
next
  case (Cons e es)
  from Cons.prems have fresh: "fst e \<notin> fst ` set cs" by auto
  have upd: "AList.update (fst e) (f e) cs = cs @ [(fst e, f e)]"
    by (rule update_fresh [OF fresh])
  have "fst ` set es \<inter> fst ` set (cs @ [(fst e, f e)]) = {}"
    using Cons.prems by auto
  with Cons.prems have "distinct (map fst es)" and "fst ` set es \<inter> fst ` set (cs @ [(fst e, f e)]) = {}"
    by simp_all
  from Cons.IH [OF this, of "t + f e"] show ?case
    by (simp add: Let_def upd add.assoc)
qed

lemma countCells_eq:
  assumes "distinct (map fst m)"
  shows "countCells env m r =
     (map (\<lambda>e. (fst e, number_or (Number_cell env (map_of r (snd e))) 0)) m,
      (\<Sum>e\<leftarrow>m. number_or (Number_cell env (map_of r (snd e))) 0))"
  unfolding countCells_def
  using countCells_fold [OF assms, of "[]" "\<lambda>e. number_or (Number_cell env (map_of r (snd e))) 0" 0]
  by simp

lemma questionStep_wellCounted:
  assumes "distinct (map fst m)" and "list_all wellCounted qs"
  shows "list_all wellCounted (questionStep env tc m nc ac qs r)"
  using assms
  by (auto simp: questionStep_def Let_def countCells_eq wellCounted_def comp_def Let_def)

lemma foldl_questionStep_wellCounted:
  assumes "distinct (map fst m)"
  shows "list_all wellCounted qs \<Longrightarrow> list_all wellCounted (foldl (questionStep env tc m nc ac) qs rs)"
  by (induction rs arbitrary: qs) (simp_all add: questionStep_wellCounted [OF assms])

lemma detectQuestions_wellCounted:
  assumes "detectQuestions env hs rws = Some qs"
  shows "qs \<noteq> [] \<and> list_all wellCounted qs"
proof -
  have "list_all wellCounted (foldl (questionStep env tc (scoreHeaderMapOf env hs) nc ac) [] rs)" for tc nc ac rs
    by (rule foldl_questionStep_wellCounted [OF distinct_scoreHeaderMapOf]) simp
  with assms show ?thesis
    by (auto simp: detectQuestions_def Let_def split: if_splits)
qed

lemma rowStep_other:
  "k \<notin> fst ` set es \<Longrightarrow>
   map_of (foldl (\<lambda>r entry. case snd entry ! i of None \<Rightarrow> r
                              | Some score \<Rightarrow> AList.update (fst entry) (Num score) r) r es) k = map_of r k"
  by (induction es arbitrary: r) (auto simp: update_conv' split: option.splits)

lemma rowStep_key:
  "distinct (map fst es) \<Longrightarrow> (k, arr) \<in> set es \<Longrightarrow>
   map_of (foldl (\<lambda>r entry. case snd entry ! i of None \<Rightarrow> r
                              | Some score \<Rightarrow> AList.update (fst entry) (Num score) r) r es) k
     = (case arr ! i of None \<Rightarrow> map_of r k | Some s \<Rightarrow> Some (Num s))"
proof (induction es arbitrary: r)
  case Nil
  then show ?case by simp
next
  case (Cons e es)
  show ?case
  proof (cases "e = (k, arr)")
    case True
    with Cons.prems have "k \<notin> fst ` set es" by auto
    from rowStep_other [OF this] True show ?thesis
      by (simp add: update_conv' split: option.splits)
  next
    case False
    with Cons.prems have in_tl: "(k, arr) \<in> set es" and d: "distinct (map fst es)" by auto
    from in_tl have "k \<in> fst ` set es" by force
    with Cons.prems(1) have "fst e \<noteq> k" by auto
    with Cons.IH [OF d in_tl] show ?thesis
      by (simp add: update_conv' split: option.splits)
  qed
qed

lemma pseudoRow_lookup:
  assumes "distinct keys" and "length arrays = length keys" and "j < length keys"
    and "respondentIdHeader env \<notin> set keys"
  shows "map_of (pseudoRow env keys arrays i) (keys ! j) = map_option Num (arrays ! j ! i)"
proof -
  have d: "distinct (map fst (zip keys arrays))" using assms by simp
  have m: "(keys ! j, arrays ! j) \<in> set (zip keys arrays)"
    using assms by (auto simp: set_zip)
  have "respondentIdHeader env \<noteq> keys ! j" using assms by auto
  with rowStep_key [OF d m] show ?thesis
    by (simp add: pseudoRow_def split: option.splits)
qed

lemma count_nth_upt:
  "length (filter (\<lambda>i. xs ! i = x) [0..<length xs]) = count (mset xs) x"
proof -
  have "length (filter (\<lambda>i. xs ! i = x) [0..<length xs]) = length (filter (\<lambda>y. y = x) (map (\<lambda>i. xs ! i) [0..<length xs]))"
    by (simp add: filter_map comp_def)
  also have "\<dots> = length (filter (\<lambda>y. y = x) xs)" by (simp add: map_nth)
  also have "\<dots> = count (mset xs) x" by (induction xs) simp_all
  finally show ?thesis .
qed

lemma rows_count:
  assumes "\<forall>i<length xs. map_of (f i) k = map_option Num (xs ! i)"
  shows "length (filter (\<lambda>r. map_of r k = map_option Num v) (map f [0..<length xs])) = count (mset xs) v"
proof -
  have "length (filter (\<lambda>r. map_of r k = map_option Num v) (map f [0..<length xs]))
      = length (filter (\<lambda>i. map_of (f i) k = map_option Num v) [0..<length xs])"
    by (simp add: filter_map comp_def)
  also have "filter (\<lambda>i. map_of (f i) k = map_option Num v) [0..<length xs]
      = filter (\<lambda>i. xs ! i = v) [0..<length xs]"
  proof (rule filter_cong [OF refl])
    fix i assume "i \<in> set [0..<length xs]"
    then have "map_of (f i) k = map_option Num (xs ! i)" using assms by simp
    then show "(map_of (f i) k = map_option Num v) = (xs ! i = v)"
      by (cases "xs ! i"; cases v) simp_all
  qed
  also have "length \<dots> = count (mset xs) v" by (rule count_nth_upt)
  finally show ?thesis .
qed

lemma count_None_concat:
  "count (mset (concat (map (\<lambda>e. replicate (n e) (Some (fst e))) cs))) None = 0"
  by (induction cs) auto

lemma sum_nat_ceiling:
  "\<forall>e\<in>set cs. snd e \<in> \<nat> \<Longrightarrow> real (\<Sum>e\<leftarrow>cs. nat \<lceil>snd e\<rceil>) = sum_list (map snd cs)"
  by (induction cs) (simp_all add: nat_ceiling_Nats)

text \<open>
  C6 (as amended). For every input accepted as a frequency-distribution table whose
  count cells are non-negative integers and whose detected questions have pairwise
  distinct keys (none of them the respondent-id header), and for every outcome of the
  random shuffle, the reconstruction returns a table in which, for each detected
  question, each score occurs under the question's key in exactly as many pseudo rows as
  the question's count for that score states (and a number that is no score column in
  none); the number of pseudo rows is the maximum total over the questions; and a
  question of a smaller total is absent, with no sentinel, from as many rows as it falls
  short of the maximum.
\<close>

theorem reconstruction_preserves_counts:
  assumes detected: "detectQuestions env hs rws = Some qs"
    and random: "\<forall>n. 0 \<le> rnd n \<and> rnd n < 1"
    and naturals: "\<forall>q\<in>set qs. \<forall>e\<in>set (counts q). snd e \<in> \<nat>"
    and keys: "distinct (questionKeysOf env qs)"
    and idHeader: "respondentIdHeader env \<notin> set (questionKeysOf env qs)"
  shows "\<exists>d. tryConvertFrequencyTable env rnd hs rws = Some d
      \<and> questionColumns d = questionKeysOf env qs
      \<and> real (length (rows d)) = Math_max (map total qs)
      \<and> (\<forall>j<length qs. \<forall>s.
            real (length (filter (\<lambda>r. map_of r (questionKeysOf env qs ! j) = Some (Num s)) (rows d)))
              = (case map_of (counts (qs ! j)) s of Some c \<Rightarrow> c | None \<Rightarrow> 0))
      \<and> (\<forall>j<length qs.
            real (length (filter (\<lambda>r. map_of r (questionKeysOf env qs ! j) = None) (rows d)))
              = Math_max (map total qs) - total (qs ! j))"
proof -
  define mt where "mt = Math_max (map total qs)"
  define M where "M = nat \<lceil>mt\<rceil>"
  define ks where "ks = questionKeysOf env qs"
  define arrays where "arrays = scoreArraysFrom rnd mt 0 qs"
  define N where "N = (\<lambda>q :: QuestionFreq. \<Sum>e\<leftarrow>counts q. nat \<lceil>snd e\<rceil>)"
  define d where "d = \<lparr> headers = respondentIdHeader env # ks,
                     respondentIdColumn = respondentIdHeader env,
                     departmentColumn = [],
                     questionColumns = ks,
                     rows = map (pseudoRow env ks arrays) [0..<M] \<rparr>"
  from detectQuestions_wellCounted [OF detected]
  have ne: "qs \<noteq> []" and wc: "list_all wellCounted qs" by simp_all
  have tot: "total q = real (N q)" and dist: "distinct (map fst (counts q))" if "q \<in> set qs" for q
  proof -
    from wc that have "wellCounted q" by (simp add: list_all_iff)
    then show "distinct (map fst (counts q))" and "total q = real (N q)"
      using sum_nat_ceiling [of "counts q"] naturals that
      by (simp_all add: wellCounted_def N_def)
  qed
  have mtMax: "mt = Max (set (map total qs))"
    unfolding mt_def using ne by (intro Math_max_Max) simp
  have "mt \<in> set (map total qs)"
    unfolding mtMax using ne by (intro Max_in) simp_all
  then obtain q0 where q0: "q0 \<in> set qs" "mt = total q0" by auto
  then have mtM: "mt = real M"
    unfolding M_def using tot [OF q0(1)] by simp
  have le: "N q \<le> M" if "q \<in> set qs" for q
  proof -
    have "total q \<le> mt" unfolding mtMax using that by (intro Max_ge) simp_all
    then show ?thesis using tot [OF that] mtM by simp
  qed
  have base: "padNull mt (concat (map (\<lambda>e. replicate (nat \<lceil>snd e\<rceil>) (Some (fst e))) (counts q)))
      = concat (map (\<lambda>e. replicate (nat \<lceil>snd e\<rceil>) (Some (fst e))) (counts q)) @ replicate (M - N q) None" for q
    by (simp add: padNull_replicate M_def N_def length_concat_replicate)
  from scoreArraysFrom_nth [OF random, of mt 0 qs]
  have lenA: "length arrays = length qs"
    and msetA: "\<And>j. j < length qs \<Longrightarrow> mset (arrays ! j) =
          mset (concat (map (\<lambda>e. replicate (nat \<lceil>snd e\<rceil>) (Some (fst e))) (counts (qs ! j))) @ replicate (M - N (qs ! j)) None)"
    and lenAj: "\<And>j. j < length qs \<Longrightarrow> length (arrays ! j) =
          length (concat (map (\<lambda>e. replicate (nat \<lceil>snd e\<rceil>) (Some (fst e))) (counts (qs ! j))) @ replicate (M - N (qs ! j)) None)"
    unfolding arrays_def base by simp_all
  have lenM: "length (arrays ! j) = M" if "j < length qs" for j
    using lenAj [OF that] le [of "qs ! j"] that
    by (simp add: length_concat_replicate N_def)
  have lenK: "length ks = length qs" by (simp add: ks_def questionKeysOf_def)
  have conv: "tryConvertFrequencyTable env rnd hs rws = Some d"
    by (simp add: tryConvertFrequencyTable_def detected Let_def d_def mt_def [symmetric]
        ks_def [symmetric] arrays_def [symmetric] rowIndices_upt M_def)
  have rws: "rows d = map (pseudoRow env ks arrays) [0..<M]" by (simp add: d_def)
  have look: "\<forall>i<length (arrays ! j). map_of (pseudoRow env ks arrays i) (ks ! j) = map_option Num (arrays ! j ! i)"
    if "j < length qs" for j
    using pseudoRow_lookup [of ks arrays j env] keys idHeader lenA lenK that
    by (simp add: ks_def)
  have cnt: "length (filter (\<lambda>r. map_of r (ks ! j) = map_option Num v) (rows d)) = count (mset (arrays ! j)) v"
    if "j < length qs" for j v
    using rows_count [OF look [OF that], of v] lenM [OF that] by (simp add: rws)
  have scores: "real (length (filter (\<lambda>r. map_of r (ks ! j) = Some (Num s)) (rows d)))
              = (case map_of (counts (qs ! j)) s of Some c \<Rightarrow> c | None \<Rightarrow> 0)"
    if j: "j < length qs" for j s
  proof -
    have q: "qs ! j \<in> set qs" using j by simp
    have "length (filter (\<lambda>r. map_of r (ks ! j) = Some (Num s)) (rows d)) = count (mset (arrays ! j)) (Some s)"
      using cnt [OF j, of "Some s"] by simp
    also have "\<dots> = (\<Sum>e\<leftarrow>counts (qs ! j). if fst e = s then nat \<lceil>snd e\<rceil> else 0)"
      by (simp add: msetA [OF j] count_concat_replicate)
    also have "\<dots> = (case map_of (counts (qs ! j)) s of Some c \<Rightarrow> nat \<lceil>c\<rceil> | None \<Rightarrow> 0)"
      using sum_distinct_key [OF dist [OF q], of s "\<lambda>e. nat \<lceil>snd e\<rceil>"]
      by (simp split: option.splits)
    finally have eq: "length (filter (\<lambda>r. map_of r (ks ! j) = Some (Num s)) (rows d))
        = (case map_of (counts (qs ! j)) s of Some c \<Rightarrow> nat \<lceil>c\<rceil> | None \<Rightarrow> 0)" .
    show ?thesis
    proof (cases "map_of (counts (qs ! j)) s")
      case None
      with eq show ?thesis by simp
    next
      case (Some c)
      then have "(s, c) \<in> set (counts (qs ! j))" by (rule map_of_SomeD)
      with naturals q have "c \<in> \<nat>" by force
      with eq Some show ?thesis by (simp add: nat_ceiling_Nats)
    qed
  qed
  have missing: "real (length (filter (\<lambda>r. map_of r (ks ! j) = None) (rows d))) = mt - total (qs ! j)"
    if j: "j < length qs" for j
  proof -
    have q: "qs ! j \<in> set qs" using j by simp
    have "length (filter (\<lambda>r. map_of r (ks ! j) = None) (rows d)) = count (mset (arrays ! j)) None"
      using cnt [OF j, of None] by simp
    also have "\<dots> = M - N (qs ! j)"
      by (simp add: msetA [OF j] count_None_concat)
    finally show ?thesis using le [OF q] tot [OF q] mtM by simp
  qed
  have "real (length (rows d)) = mt" by (simp add: rws mtM)
  with conv scores missing show ?thesis
    unfolding ks_def mt_def by (intro exI [of _ d]) (simp add: d_def ks_def)
qed

lemma detect_frequencyTable:
  "detectQuestions exampleJs frequencyHeaders frequencyTable = Some frequencyQuestions"
  by code_simp

lemma keys_frequencyTable:
  "questionKeysOf exampleJs frequencyQuestions = [''Q1_Work is rewarding'', ''Q2_Pay is fair'']"
  by code_simp

theorem reconstruction_preserves_counts_witness:
  "\<exists>d. tryConvertFrequencyTable exampleJs (\<lambda>n. 1 / 2) frequencyHeaders frequencyTable = Some d
     \<and> length (rows d) = 3
     \<and> length (filter (\<lambda>r. map_of r ''Q1_Work is rewarding'' = Some (Num 3)) (rows d)) = 2
     \<and> length (filter (\<lambda>r. map_of r ''Q1_Work is rewarding'' = Some (Num 2)) (rows d)) = 1
     \<and> length (filter (\<lambda>r. map_of r ''Q2_Pay is fair'' = Some (Num 1)) (rows d)) = 1
     \<and> length (filter (\<lambda>r. map_of r ''Q2_Pay is fair'' = None) (rows d)) = 1"
proof -
  have random: "\<forall>n::nat. 0 \<le> (1 / 2 :: real) \<and> (1 / 2 :: real) < 1" by simp
  have naturals: "\<forall>q\<in>set frequencyQuestions. \<forall>e\<in>set (counts q). snd e \<in> \<nat>"
    by (simp add: frequencyQuestions_def)
  have keys: "distinct (questionKeysOf exampleJs frequencyQuestions)"
    by (simp add: keys_frequencyTable)
  have idHeader: "respondentIdHeader exampleJs \<notin> set (questionKeysOf exampleJs frequencyQuestions)"
  proof -
    have "respondentIdHeader exampleJs = ''respondentId''" by (simp add: exampleJs_def)
    then show ?thesis unfolding keys_frequencyTable by simp
  qed
  have mx: "Math_max (map total frequencyQuestions) = 3"
    by (simp add: Math_max_def frequencyQuestions_def)
  from reconstruction_preserves_counts [OF detect_frequencyTable random naturals keys idHeader]
  obtain d where conv: "tryConvertFrequencyTable exampleJs (\<lambda>n. 1 / 2) frequencyHeaders frequencyTable = Some d"
    and len: "real (length (rows d)) = Math_max (map total frequencyQuestions)"
    and scores: "\<forall>j<length frequencyQuestions. \<forall>s.
            real (length (filter (\<lambda>r. map_of r (questionKeysOf exampleJs frequencyQuestions ! j) = Some (Num s)) (rows d)))
              = (case map_of (counts (frequencyQuestions ! j)) s of Some c \<Rightarrow> c | None \<Rightarrow> 0)"
    and missing: "\<forall>j<length frequencyQuestions.
            real (length (filter (\<lambda>r. map_of r (questionKeysOf exampleJs frequencyQuestions ! j) = None) (rows d)))
              = Math_max (map total frequencyQuestions) - total (frequencyQuestions ! j)"
    by blast
  have l: "length frequencyQuestions = 2" by (simp add: frequencyQuestions_def)
  from len have 1: "length (rows d) = 3" unfolding mx by linarith
  from scores [rule_format, of 0 3] have 2: "length (filter (\<lambda>r. map_of r ''Q1_Work is rewarding'' = Some (Num 3)) (rows d)) = 2"
    unfolding keys_frequencyTable by (simp add: l frequencyQuestions_def)
  from scores [rule_format, of 0 2] have 3: "length (filter (\<lambda>r. map_of r ''Q1_Work is rewarding'' = Some (Num 2)) (rows d)) = 1"
    unfolding keys_frequencyTable by (simp add: l frequencyQuestions_def)
  from scores [rule_format, of 1 1] have 4: "length (filter (\<lambda>r. map_of r ''Q2_Pay is fair'' = Some (Num 1)) (rows d)) = 1"
    unfolding keys_frequencyTable by (simp add: l frequencyQuestions_def)
  from missing [rule_format, of 1] have 5: "length (filter (\<lambda>r. map_of r ''Q2_Pay is fair'' = None) (rows d)) = 1"
    unfolding keys_frequencyTable mx by (simp add: l frequencyQuestions_def)
  from conv 1 2 3 4 5 show ?thesis by blast
qed

text \<open>
  The claim as first stated covers every accepted table. Two question rows with the same
  number and text get the same key, and the later one overwrites the earlier one in
  every pseudo row: the first question of \<open>repeatedTable\<close> has the count 1 for the
  score 1, and no pseudo row holds the score 1. A count cell of 2.5 puts its score into 3
  pseudo rows.
\<close>

theorem reconstruction_counterexample:
  "detectQuestions exampleJs frequencyHeaders repeatedTable =
     Some [\<lparr>QuestionFreq.number = 1, text' = ''Work is rewarding'',
             counts = [(3, 0), (2, 0), (1, 1)], total = 1, weightedAvg = None\<rparr>,
           \<lparr>QuestionFreq.number = 1, text' = ''Work is rewarding'',
             counts = [(3, 1), (2, 0), (1, 0)], total = 1, weightedAvg = None\<rparr>]
   \<and> map_option questionColumns (tryConvertFrequencyTable exampleJs (\<lambda>n. 1 / 2) frequencyHeaders repeatedTable) =
       Some [''Q1_Work is rewarding'', ''Q1_Work is rewarding'']
   \<and> map_option rows (tryConvertFrequencyTable exampleJs (\<lambda>n. 1 / 2) frequencyHeaders repeatedTable) =
       Some [[(''respondentId'', Str ''001''), (''Q1_Work is rewarding'', Num 3)]]
   \<and> map_option (map counts) (detectQuestions exampleJs frequencyHeaders fractionalTable) =
       Some [[(3, 5 / 2), (2, 0), (1, 0)], [(3, 1), (2, 0), (1, 0)]]
   \<and> map_option (\<lambda>d. length (filter (\<lambda>r. map_of r ''Q1_Work is rewarding'' = Some (Num 3)) (rows d)))
         (tryConvertFrequencyTable exampleJs (\<lambda>n. 1 / 2) frequencyHeaders fractionalTable) = Some 3"
  by code_simp

end
